theory Spec2Isabelle
  imports Main "HOL-Library.Sublist"
begin

section \<open>Python strings\<close>

text \<open>
  Python \<open>str\<close> values are modelled as \<open>string\<close> (lists of 8-bit characters), so the
  model covers ASCII text. The helpers below are the ASCII behaviour of the built-ins
  the sources call: \<open>str.strip\<close>, \<open>str.split\<close> (no argument), \<open>str.lower\<close>,
  \<open>str.startswith\<close>, \<open>str.endswith\<close>, \<open>int(str)\<close> and \<open>str(int)\<close>.
\<close>

definition py_isspace :: "char \<Rightarrow> bool" where
  "py_isspace c = (c \<in> set [CHR '' '', CHR 0x09, CHR 0x0A, CHR 0x0B, CHR 0x0C, CHR 0x0D,
                              CHR 0x1C, CHR 0x1D, CHR 0x1E, CHR 0x1F])"

definition py_strip :: "string \<Rightarrow> string" where
  "py_strip s = rev (dropWhile py_isspace (rev (dropWhile py_isspace s)))"

text \<open>\<open>s.split()\<close>: the maximal runs of non-whitespace characters, left to right. The
  second argument is the token being read, reversed.\<close>

fun split_from :: "string \<Rightarrow> string \<Rightarrow> string list" where
  "split_from [] tok = (if tok = [] then [] else [rev tok])"
| "split_from (c # cs) tok =
     (if py_isspace c then (if tok = [] then split_from cs [] else rev tok # split_from cs [])
      else split_from cs (c # tok))"

definition py_split :: "string \<Rightarrow> string list" where
  "py_split s = split_from s []"

definition lower_char :: "char \<Rightarrow> char" where
  "lower_char c =
     (case map_of (zip ''ABCDEFGHIJKLMNOPQRSTUVWXYZ'' ''abcdefghijklmnopqrstuvwxyz'') c of
        Some l \<Rightarrow> l | None \<Rightarrow> c)"

definition py_lower :: "string \<Rightarrow> string" where
  "py_lower s = map lower_char s"

definition startswith :: "string \<Rightarrow> string \<Rightarrow> bool" where
  "startswith s pre = prefix pre s"

definition endswith :: "string \<Rightarrow> string \<Rightarrow> bool" where
  "endswith s suf = prefix (rev suf) (rev s)"

definition is_digit :: "char \<Rightarrow> bool" where
  "is_digit c = (c \<in> set ''0123456789'')"

definition digit_val :: "char \<Rightarrow> nat" where
  "digit_val c =
     (case map_of (zip ''0123456789'' [0, 1, 2, 3, 4, 5, 6, 7, 8, 9]) c of
        Some d \<Rightarrow> d | None \<Rightarrow> 0)"

text \<open>\<open>int(s)\<close> in base 10: surrounding whitespace is ignored, then an optional sign,
  then decimal digits in which single underscores may separate digits. Anything else is
  \<open>ValueError\<close>, here \<open>None\<close>. On ASCII text \<open>int\<close> skips only the six characters of
  C's \<open>isspace\<close>: the separators 0x1C to 0x1F, which \<open>strip\<close> and \<open>split\<close> treat as
  whitespace, make \<open>int\<close> raise. \<open>digits_val acc cs\<close> reads the characters after the
  first digit.\<close>

definition int_isspace :: "char \<Rightarrow> bool" where
  "int_isspace c = (c \<in> set [CHR '' '', CHR 0x09, CHR 0x0A, CHR 0x0B, CHR 0x0C, CHR 0x0D])"

definition int_strip :: "string \<Rightarrow> string" where
  "int_strip s = rev (dropWhile int_isspace (rev (dropWhile int_isspace s)))"

fun digits_val :: "nat \<Rightarrow> string \<Rightarrow> nat option" where
  "digits_val acc [] = Some acc"
| "digits_val acc (c # cs) =
     (if is_digit c then digits_val (acc * 10 + digit_val c) cs
      else if c = CHR ''_'' then
        (case cs of
           [] \<Rightarrow> None
         | d # ds \<Rightarrow> if is_digit d then digits_val (acc * 10 + digit_val d) ds else None)
      else None)"

definition py_nat :: "string \<Rightarrow> nat option" where
  "py_nat s = (case s of [] \<Rightarrow> None
               | c # cs \<Rightarrow> if is_digit c then digits_val (digit_val c) cs else None)"

definition py_int :: "string \<Rightarrow> int option" where
  "py_int s0 =
     (case int_strip s0 of
        [] \<Rightarrow> None
      | c # cs \<Rightarrow>
          if c = CHR ''-'' then map_option (\<lambda>n. - int n) (py_nat cs)
          else if c = CHR ''+'' then map_option int (py_nat cs)
          else map_option int (py_nat (c # cs)))"

text \<open>\<open>str(n)\<close> for an integer, as the f-strings of the sources render a port.\<close>

fun str_nat :: "nat \<Rightarrow> string" where
  "str_nat n = (if n < 10 then [''0123456789'' ! n]
                else str_nat (n div 10) @ [''0123456789'' ! (n mod 10)])"

definition str_int :: "int \<Rightarrow> string" where
  "str_int i = (if i < 0 then CHR ''-'' # str_nat (nat (- i)) else str_nat (nat i))"

section \<open>Errors\<close>

datatype py_error =
    EOFError
  | ValueError
  | ConnectionError
  | HTTPError nat
  | OSError
  | ChunkedEncodingError
  | MarkupError

section \<open>The receiver (pyshare\_recv.py)\<close>

subsection \<open>The world of the receiver\<close>

text \<open>
  A response of the HTTP library: the status code, the text of the body (read by
  \<open>list_files\<close>), and for a streamed body the chunks \<open>iter_content\<close> yields, with
  \<open>cut\<close> set when the iteration raises after the last of them.
\<close>

record response =
  status :: nat
  body_text :: string
  chunks :: "string list"
  cut :: bool

text \<open>
  The receiver's world: the remote side (what the \<open>n\<close>-th request of the run to a URL
  answers, or the exception it raises), the requests issued so far, the file each path
  names on the local disk (two paths that name one file, such as \<open>a.txt\<close> and
  \<open>./a.txt\<close>, have the same value), the contents of the files that exist, the
  paths that \<open>open(path, 'wb')\<close> refuses, the lines still to be typed, and what was
  printed: \<open>Line s\<close> for a line of text, \<open>Failure s e\<close> for a message \<open>s\<close> followed
  by the text of the exception \<open>e\<close>. Prompts of \<open>input\<close> are not recorded.
\<close>

datatype out = Line string | Failure string py_error

record rworld =
  remote :: "nat \<Rightarrow> string \<Rightarrow> py_error + response"
  gets :: "string list"
  locate :: "string \<Rightarrow> nat"
  files :: "nat \<rightharpoonup> string"
  unwritable :: "string \<Rightarrow> bool"
  keyboard :: "string list"
  printed :: "out list"

definition requests_get :: "string \<Rightarrow> rworld \<Rightarrow> (py_error + response) \<times> rworld" where
  "requests_get url w = (remote w (length (gets w)) url, w\<lparr>gets := gets w @ [url]\<rparr>)"

definition raise_for_status :: "response \<Rightarrow> py_error option" where
  "raise_for_status r = (if 400 \<le> status r \<and> status r < 600 then Some (HTTPError (status r)) else None)"

definition print :: "out \<Rightarrow> rworld \<Rightarrow> rworld" where
  "print line w = w\<lparr>printed := printed w @ [line]\<rparr>"

definition input :: "rworld \<Rightarrow> (py_error + string) \<times> rworld" where
  "input w = (case keyboard w of
                [] \<Rightarrow> (Inl EOFError, w)
              | l # ls \<Rightarrow> (Inr l, w\<lparr>keyboard := ls\<rparr>))"

subsection \<open>list\_files\<close>

text \<open>
  An anchor element as the HTML parser hands it over: its text and its attributes.
  \<open>soup.find_all("a")\<close> is a parameter \<open>find_all_a\<close> of the model: it maps the text of
  a page to its anchors in document order.
\<close>

record anchor =
  a_text :: string
  a_attrs :: "string \<rightharpoonup> string"

definition a_get :: "anchor \<Rightarrow> string \<Rightarrow> string option" where
  "a_get a k = a_attrs a k"

type_synonym entry = "string \<times> string"

text \<open>The loop of \<open>list_files\<close> (lines 13 to 16), with \<open>files\<close> as accumulator.\<close>

fun collect_files :: "anchor list \<Rightarrow> entry list \<Rightarrow> entry list" where
  "collect_files [] fs = fs"
| "collect_files (a # as) fs =
     (case a_get a ''href'' of
        None \<Rightarrow> collect_files as fs
      | Some href \<Rightarrow>
          if href \<noteq> [] \<and> \<not> endswith href ''/''
          then collect_files as (fs @ [(py_strip (a_text a), href)])
          else collect_files as fs)"

definition list_files ::
  "(string \<Rightarrow> anchor list) \<Rightarrow> string \<Rightarrow> rworld \<Rightarrow> (py_error + entry list) \<times> rworld" where
  "list_files find_all_a url w =
     (case requests_get url w of
        (Inl e, w1) \<Rightarrow> (Inl e, w1)
      | (Inr r, w1) \<Rightarrow>
          (case raise_for_status r of
             Some e \<Rightarrow> (Inl e, w1)
           | None \<Rightarrow> (Inr (collect_files (find_all_a (body_text r)) []), w1)))"

text \<open>What the specification says \<open>listFiles\<close> returns: the anchors whose target does not
  end in a slash, in document order.\<close>

definition spec_list_entries :: "anchor list \<Rightarrow> entry list" where
  "spec_list_entries as =
     map (\<lambda>a. (py_strip (a_text a), the (a_get a ''href'')))
       (filter (\<lambda>a. case a_get a ''href'' of None \<Rightarrow> False | Some h \<Rightarrow> \<not> endswith h ''/'') as)"

subsection \<open>download\_file\<close>

text \<open>
  \<open>urljoin\<close> and the path component of \<open>urlparse\<close> belong to the URL library and are
  parameters of the model. \<open>os.path.basename\<close> and \<open>os.path.join\<close> are the POSIX ones:
  the part after the last slash, and concatenation with one separating slash unless the
  second part is absolute or the first is empty or already ends in a slash.
\<close>

record urllib =
  urljoin :: "string \<Rightarrow> string \<Rightarrow> string"
  url_path :: "string \<Rightarrow> string"

definition basename :: "string \<Rightarrow> string" where
  "basename p = rev (takeWhile (\<lambda>c. c \<noteq> CHR ''/'') (rev p))"

definition path_join :: "string \<Rightarrow> string \<Rightarrow> string" where
  "path_join a b =
     (if startswith b ''/'' then b
      else if a = [] \<or> endswith a ''/'' then a @ b
      else a @ ''/'' @ b)"

text \<open>\<open>open(path, 'wb')\<close> creates the file or truncates it to length zero.\<close>

definition open_wb :: "string \<Rightarrow> rworld \<Rightarrow> py_error + rworld" where
  "open_wb path w =
     (if unwritable w path then Inl OSError
      else Inr (w\<lparr>files := (files w)(locate w path \<mapsto> [])\<rparr>))"

definition f_write :: "string \<Rightarrow> string \<Rightarrow> rworld \<Rightarrow> rworld" where
  "f_write path chunk w =
     w\<lparr>files := (files w)(locate w path \<mapsto>
          (case files w (locate w path) of None \<Rightarrow> chunk | Some old \<Rightarrow> old @ chunk))\<rparr>"

text \<open>The loop over \<open>r.iter_content(8192)\<close> (lines 27 to 29).\<close>

fun write_chunks :: "string \<Rightarrow> string list \<Rightarrow> rworld \<Rightarrow> rworld" where
  "write_chunks path [] w = w"
| "write_chunks path (chunk # rest) w =
     (if chunk \<noteq> [] then write_chunks path rest (f_write path chunk w)
      else write_chunks path rest w)"

definition download_file ::
  "urllib \<Rightarrow> string \<Rightarrow> string \<Rightarrow> string \<Rightarrow> rworld \<Rightarrow> (py_error + string) \<times> rworld" where
  "download_file lib base href dest w =
     (let url = urljoin lib base href;
          local_name = basename (url_path lib url)
      in case requests_get url w of
           (Inl e, w1) \<Rightarrow> (Inl e, w1)
         | (Inr r, w1) \<Rightarrow>
             (case raise_for_status r of
                Some e \<Rightarrow> (Inl e, w1)
              | None \<Rightarrow>
                  (let path = path_join dest local_name
                   in case open_wb path w1 of
                        Inl e \<Rightarrow> (Inl e, w1)
                      | Inr w2 \<Rightarrow>
                          (let w3 = write_chunks path (chunks r) w2
                           in if cut r then (Inl ChunkedEncodingError, w3)
                              else (Inr path, w3)))))"

subsection \<open>main: selection and downloads\<close>

text \<open>Lines 55 to 60: the indices typed, each token that \<open>int\<close> accepts, minus one.\<close>

fun parse_idxs :: "string list \<Rightarrow> int list \<Rightarrow> int list" where
  "parse_idxs [] idxs = idxs"
| "parse_idxs (part # parts) idxs =
     (case py_int part of
        Some v \<Rightarrow> parse_idxs parts (idxs @ [v - 1])
      | None \<Rightarrow> parse_idxs parts idxs)"

text \<open>Lines 61 to 63.\<close>

fun pick :: "entry list \<Rightarrow> int list \<Rightarrow> entry list \<Rightarrow> entry list" where
  "pick fs [] to_download = to_download"
| "pick fs (i # idxs) to_download =
     (if 0 \<le> i \<and> i < int (length fs) then pick fs idxs (to_download @ [fs ! nat i])
      else pick fs idxs to_download)"

text \<open>Lines 51 to 63; \<open>choice\<close> is the line typed, already stripped.\<close>

definition select :: "entry list \<Rightarrow> string \<Rightarrow> entry list" where
  "select fs choice =
     (if py_lower choice = ''all'' then fs
      else pick fs (parse_idxs (py_split choice) []) [])"

text \<open>Lines 64 to 70: each download in its own \<open>try\<close>.\<close>

fun download_all :: "urllib \<Rightarrow> string \<Rightarrow> entry list \<Rightarrow> rworld \<Rightarrow> rworld" where
  "download_all lib url [] w = w"
| "download_all lib url ((name, href) # rest) w =
     (let w1 = print (Line (''Downloading '' @ name @ ''...'')) w
      in case download_file lib url href ''.'' w1 of
           (Inr path, w2) \<Rightarrow> download_all lib url rest (print (Line (''Saved to '' @ path)) w2)
         | (Inl e, w2) \<Rightarrow>
             download_all lib url rest (print (Failure (''Failed to download '' @ name @ '':'') e) w2))"

fun print_listing :: "nat \<Rightarrow> entry list \<Rightarrow> rworld \<Rightarrow> rworld" where
  "print_listing i [] w = w"
| "print_listing i ((name, href) # rest) w =
     print_listing (Suc i) rest (print (Line (str_nat i @ '': '' @ name)) w)"

definition main :: "urllib \<Rightarrow> (string \<Rightarrow> anchor list) \<Rightarrow> rworld \<Rightarrow> (py_error + unit) \<times> rworld" where
  "main lib find_all_a w0 =
     (let w = print (Line ''PyShare Receiver'') w0
      in case input w of
           (Inl e, w1) \<Rightarrow> (Inl e, w1)
         | (Inr l, w1) \<Rightarrow>
             (let url = py_strip l
              in if url = [] then (Inr (), w1)
                 else case list_files find_all_a url w1 of
                   (Inl e, w2) \<Rightarrow> (Inr (), print (Failure ''Failed to list files:'' e) w2)
                 | (Inr fs, w2) \<Rightarrow>
                     if fs = [] then (Inr (), print (Line ''No files found at the URL'') w2)
                     else
                       (let w3 = print_listing 1 fs (print (Line ''Files:'') w2);
                            w4 = print (Line (''Enter numbers separated by space to download, or '' @ [CHR 0x27] @ ''all'' @ [CHR 0x27])) w3
                        in case input w4 of
                             (Inl e, w5) \<Rightarrow> (Inl e, w5)
                           | (Inr c, w5) \<Rightarrow>
                               (Inr (), download_all lib url (select fs (py_strip c)) w5))))"

text \<open>The anchors \<open>collect_files\<close> keeps, and the entry it makes of each.\<close>

definition wanted :: "anchor \<Rightarrow> bool" where
  "wanted a = (case a_get a ''href'' of None \<Rightarrow> False | Some h \<Rightarrow> h \<noteq> [] \<and> \<not> endswith h ''/'')"

definition as_entry :: "anchor \<Rightarrow> entry" where
  "as_entry a = (py_strip (a_text a), the (a_get a ''href''))"

section \<open>Example data\<close>

text \<open>A listing page with two files and a subdirectory, a listing of three entries, and
  a share that serves \<open>a.txt\<close>, drops the connection for \<open>b.png\<close> and answers 404 for
  anything else. The receiver already has the files \<open>./a.txt\<close> and \<open>./b.png\<close>.\<close>

definition page3 :: "anchor list" where
  "page3 = [\<lparr>a_text = ''a.txt'', a_attrs = [''href'' \<mapsto> ''a.txt'']\<rparr>,
            \<lparr>a_text = ''sub/'', a_attrs = [''href'' \<mapsto> ''sub/'']\<rparr>,
            \<lparr>a_text = '' b.png '', a_attrs = [''href'' \<mapsto> ''b.png'']\<rparr>]"

definition listing3 :: "entry list" where
  "listing3 = [(''a.txt'', ''a.txt''), (''b.png'', ''b.png''), (''c.md'', ''c.md'')]"

definition lib0 :: urllib where
  "lib0 = \<lparr>urljoin = (\<lambda>b h. b @ h), url_path = drop 20\<rparr>"

definition share0 :: "nat \<Rightarrow> string \<Rightarrow> py_error + response" where
  "share0 n u =
     (if u = ''http://10.0.0.5:8000/''
      then Inr \<lparr>status = 200, body_text = ''<a href=...>'', chunks = [], cut = False\<rparr>
      else if u = ''http://10.0.0.5:8000/a.txt''
      then Inr \<lparr>status = 200, body_text = [], chunks = [''he'', [], ''llo''], cut = False\<rparr>
      else if u = ''http://10.0.0.5:8000/b.png''
      then Inl ConnectionError
      else Inr \<lparr>status = 404, body_text = [], chunks = [], cut = False\<rparr>)"

definition disk0 :: "string \<Rightarrow> nat" where
  "disk0 p = (if p \<in> set [''./a.txt'', ''a.txt''] then 1
              else if p \<in> set [''./b.png'', ''b.png''] then 2
              else 3 + length p)"

definition rworld0 :: rworld where
  "rworld0 = \<lparr>remote = share0, gets = [], locate = disk0,
              files = [1 \<mapsto> ''old'', 2 \<mapsto> ''old png''],
              unwritable = (\<lambda>p. False), keyboard = [], printed = []\<rparr>"

section \<open>The host\<close>

text \<open>
  What the front ends ask of the machine they run on: \<open>os.path.isdir\<close>; the outcome of
  the UDP probe of the CLI and Rich resolvers (the address \<open>getsockname\<close> reports after
  \<open>connect(("8.8.8.8", 80))\<close>, or the exception raised on the way); the interface names
  and per-interface addresses of the interface library used by the Textual resolver (a
  link is the dictionary of one address, the addresses of an interface are keyed by
  address family); the QR renderer; and, for the Rich front end, whether the console's
  markup renderer raises \<open>MarkupError\<close> on a text (it does when a closing tag such as
  \<open>[/x]\<close> matches no open tag).
\<close>

type_synonym link = "string \<rightharpoonup> string"

record host =
  isdir :: "string \<Rightarrow> bool"
  udp_probe :: "py_error + string"
  interfaces :: "py_error + string list"
  ifaddresses :: "string \<Rightarrow> py_error + (nat \<rightharpoonup> link list)"
  qr_ascii :: "string \<Rightarrow> string"
  markup_error :: "string \<Rightarrow> bool"

definition AF_INET :: nat where
  "AF_INET = 2"

section \<open>The address resolvers\<close>

text \<open>\<open>get_local_ip\<close> of pyshare.py. The inner loop (lines 39 to 42) yields the address it
  returns, if any; the outer loop (lines 36 to 42) also passes on an exception of
  \<open>ifaddresses\<close>.\<close>

fun scan_links :: "link list \<Rightarrow> string option" where
  "scan_links [] = None"
| "scan_links (l # ls) =
     (case l ''addr'' of
        None \<Rightarrow> scan_links ls
      | Some ip \<Rightarrow> if ip \<noteq> [] \<and> \<not> startswith ip ''127.'' then Some ip else scan_links ls)"

fun scan_ifaces :: "host \<Rightarrow> string list \<Rightarrow> py_error + string option" where
  "scan_ifaces h [] = Inr None"
| "scan_ifaces h (iface # rest) =
     (case ifaddresses h iface of
        Inl e \<Rightarrow> Inl e
      | Inr ifaddrs \<Rightarrow>
          (case ifaddrs AF_INET of
             None \<Rightarrow> scan_ifaces h rest
           | Some links \<Rightarrow>
               (case scan_links links of
                  Some ip \<Rightarrow> Inr (Some ip)
                | None \<Rightarrow> scan_ifaces h rest)))"

definition get_local_ip :: "host \<Rightarrow> string" where
  "get_local_ip h =
     (case interfaces h of
        Inl e \<Rightarrow> ''?.?.?.?''
      | Inr ifs \<Rightarrow>
          (case scan_ifaces h ifs of
             Inl e \<Rightarrow> ''?.?.?.?''
           | Inr (Some ip) \<Rightarrow> ip
           | Inr None \<Rightarrow> ''?.?.?.?''))"

text \<open>\<open>get_local_ip\<close> of pyshare\_cli.py and pyshare\_rich.py (the same code).\<close>

definition get_local_ip_sock :: "host \<Rightarrow> string" where
  "get_local_ip_sock h = (case udp_probe h of Inr ip \<Rightarrow> ip | Inl e \<Rightarrow> ''127.0.0.1'')"

text \<open>The specification's reading of the resolver, for comparison: the IPv4 addresses of
  the interfaces in enumeration order, the test for an address outside the loopback
  range, and the first such address or the sentinel.\<close>

definition ipv4_addrs :: "host \<Rightarrow> string list \<Rightarrow> string list" where
  "ipv4_addrs h ifs =
     concat (map (\<lambda>iface. case ifaddresses h iface of
                             Inl e \<Rightarrow> []
                           | Inr ifaddrs \<Rightarrow>
                               (case ifaddrs AF_INET of
                                  None \<Rightarrow> []
                                | Some links \<Rightarrow> List.map_filter (\<lambda>l. l ''addr'') links)) ifs)"

text \<open>The text of the IPv4 address \<open>a.b.c.d\<close>; it lies in 127.0.0.0/8 when \<open>a = 127\<close>.\<close>

definition dotted :: "nat \<Rightarrow> nat \<Rightarrow> nat \<Rightarrow> nat \<Rightarrow> string" where
  "dotted a b c d = str_nat a @ ''.'' @ str_nat b @ ''.'' @ str_nat c @ ''.'' @ str_nat d"

definition usable :: "string \<Rightarrow> bool" where
  "usable ip = (ip \<noteq> [] \<and> \<not> startswith ip ''127.'')"

definition answers :: "host \<Rightarrow> string \<Rightarrow> bool" where
  "answers h iface = (case ifaddresses h iface of Inl e \<Rightarrow> False | Inr ifaddrs \<Rightarrow> True)"

definition first_usable :: "string list \<Rightarrow> string" where
  "first_usable ips = (case find usable ips of Some ip \<Rightarrow> ip | None \<Rightarrow> ''?.?.?.?'')"

section \<open>The session controller\<close>

subsection \<open>State\<close>

text \<open>
  A \<open>multiprocessing.Process\<close> object created with \<open>target=run_server\<close> and
  \<open>args=(directory, port)\<close>: an identity and the arguments it was created with.
\<close>

record process =
  pid :: nat
  target_dir :: string
  target_port :: int

text \<open>
  The three front ends keep the same four attributes: \<open>shared_dir\<close>, \<open>port\<close>, the
  process handle (\<open>proc\<close> in PyShareCLI, \<open>server_proc\<close> in PyShareRich,
  \<open>server_process\<close> in PyShareApp) and \<open>url\<close>.
\<close>

record controller =
  shared_dir :: string
  port :: int
  proc :: "process option"
  url :: string

text \<open>
  The world around a controller: the server processes that are running, the identity the
  next process gets, the lines still to be typed and the lines printed.
  \<open>Process.start\<close> is taken to succeed, and \<open>terminate\<close> followed by \<open>join\<close> to
  end the process. A child that fails to bind its port or to enter its directory, or
  that crashes, is a process that exits on its own (rule \<open>exit\<close> of \<open>reach\<close> below).
\<close>

record world =
  alive :: "nat set"
  fresh :: nat
  stdin :: "string list"
  console :: "string list"

definition spawn :: "string \<Rightarrow> int \<Rightarrow> world \<Rightarrow> process \<times> world" where
  "spawn d p w =
     (\<lparr>pid = fresh w, target_dir = d, target_port = p\<rparr>,
      w\<lparr>alive := insert (fresh w) (alive w), fresh := Suc (fresh w)\<rparr>)"

definition is_alive :: "process \<Rightarrow> world \<Rightarrow> bool" where
  "is_alive p w = (pid p \<in> alive w)"

definition terminate_join :: "process \<Rightarrow> world \<Rightarrow> world" where
  "terminate_join p w = w\<lparr>alive := alive w - {pid p}\<rparr>"

definition prints :: "string \<Rightarrow> world \<Rightarrow> world" where
  "prints line w = w\<lparr>console := console w @ [line]\<rparr>"

definition read_line :: "world \<Rightarrow> (py_error + string) \<times> world" where
  "read_line w = (case stdin w of
                    [] \<Rightarrow> (Inl EOFError, w)
                  | l # ls \<Rightarrow> (Inr l, w\<lparr>stdin := ls\<rparr>))"

text \<open>The test \<open>self.proc and self.proc.is_alive()\<close>, which is also the state the front
  ends display: Running when it holds, Stopped otherwise.\<close>

definition running :: "controller \<Rightarrow> world \<Rightarrow> bool" where
  "running c w = (case proc c of None \<Rightarrow> False | Some p \<Rightarrow> is_alive p w)"

definition share_url :: "string \<Rightarrow> int \<Rightarrow> string" where
  "share_url ip p = ''http://'' @ ip @ '':'' @ str_int p"

definition generate_qr_ascii :: "host \<Rightarrow> string \<Rightarrow> string" where
  "generate_qr_ascii h u = (if u = [] then ''(stopped)'' else qr_ascii h u)"

subsection \<open>PyShareCLI\<close>

definition start_server :: "host \<Rightarrow> controller \<times> world \<Rightarrow> controller \<times> world" where
  "start_server h s =
     (case s of (c, w) \<Rightarrow>
        if running c w then (c, prints ''Server already running'' w)
        else
          (case spawn (shared_dir c) (port c) w of (p, w1) \<Rightarrow>
             (let c1 = c\<lparr>proc := Some p\<rparr>;
                  c2 = c1\<lparr>url := share_url (get_local_ip_sock h) (port c1)\<rparr>
              in (c2, prints (''Started server at '' @ url c2 @ '', serving '' @ shared_dir c2) w1))))"

definition stop_server :: "controller \<times> world \<Rightarrow> controller \<times> world" where
  "stop_server s =
     (case s of (c, w) \<Rightarrow>
        (c\<lparr>proc := None, url := []\<rparr>,
         (case proc c of
            None \<Rightarrow> prints ''Server is not running'' w
          | Some p \<Rightarrow>
              if is_alive p w then prints ''Server stopped'' (terminate_join p w)
              else prints ''Server is not running'' w)))"

text \<open>\<open>__init__\<close>; \<open>cwd\<close> is what \<open>os.getcwd()\<close> returns.\<close>

definition init_cli :: "host \<Rightarrow> string \<Rightarrow> world \<Rightarrow> controller \<times> world" where
  "init_cli h cwd w = start_server h (\<lparr>shared_dir = cwd, port = 8000, proc = None, url = []\<rparr>, w)"

text \<open>Lines 103 to 110 and 116 to 127 of \<open>repl\<close>: the \<open>dir\<close> and \<open>port\<close> commands once
  the new value \<open>new\<close> has been read.\<close>

definition set_dir :: "host \<Rightarrow> string \<Rightarrow> controller \<times> world \<Rightarrow> controller \<times> world" where
  "set_dir h new s =
     (case s of (c, w) \<Rightarrow>
        if isdir h new then
          (let c1 = c\<lparr>shared_dir := new\<rparr>;
               w1 = prints (''Serving: '' @ shared_dir c1) w
           in if running c1 w1 then start_server h (stop_server (c1, w1)) else (c1, w1))
        else (c, prints ''Not a directory'' w))"

definition set_port :: "host \<Rightarrow> string \<Rightarrow> controller \<times> world \<Rightarrow> controller \<times> world" where
  "set_port h new s =
     (case s of (c, w) \<Rightarrow>
        (case py_int new of
           None \<Rightarrow> (c, prints ''Invalid port'' w)
         | Some p \<Rightarrow>
             if 1024 \<le> p \<and> p \<le> 65535 then
               (let c1 = c\<lparr>port := p\<rparr>;
                    w1 = prints (''Port set to '' @ str_int (port c1)) w
                in if running c1 w1 then start_server h (stop_server (c1, w1)) else (c1, w1))
             else (c, prints ''Port must be 1024-65535'' w)))"

text \<open>One pass through the body of the loop of \<open>repl\<close>: it goes on, leaves the loop, or
  an exception leaves \<open>repl\<close> (the \<open>input\<close> of lines 102 and 115 is outside any
  \<open>try\<close>). The prompts are not recorded; \<open>KeyboardInterrupt\<close> is not modelled.\<close>

datatype 'a flow = Continue 'a | Break 'a | Raise py_error 'a

definition new_value :: "string list \<Rightarrow> world \<Rightarrow> (py_error + string) \<times> world" where
  "new_value args w = (case args of a # rest \<Rightarrow> (Inr a, w) | [] \<Rightarrow> read_line w)"

definition repl_iter :: "host \<Rightarrow> controller \<times> world \<Rightarrow> (controller \<times> world) flow" where
  "repl_iter h s =
     (case s of (c, w) \<Rightarrow>
        (case read_line w of
           (Inl e, w1) \<Rightarrow> Break (stop_server (c, prints [] w1))
         | (Inr line, w1) \<Rightarrow>
             (case py_split (py_strip line) of
                [] \<Rightarrow> Continue (c, w1)
              | c0 # args \<Rightarrow>
                  (let k = py_lower c0 in
                   if k \<in> set [''q'', ''quit'', ''exit''] then Break (stop_server (c, w1))
                   else if k = ''start'' then Continue (start_server h (c, w1))
                   else if k = ''stop'' then Continue (stop_server (c, w1))
                   else if k = ''dir'' then
                     (case new_value args w1 of
                        (Inl e, w2) \<Rightarrow> Raise e (c, w2)
                      | (Inr new, w2) \<Rightarrow> Continue (set_dir h new (c, w2)))
                   else if k = ''port'' then
                     (case new_value args w1 of
                        (Inl e, w2) \<Rightarrow> Raise e (c, w2)
                      | (Inr new, w2) \<Rightarrow> Continue (set_port h new (c, w2)))
                   else if k = ''url'' then
                     Continue (c, prints (if url c = [] then ''(stopped)'' else url c) w1)
                   else if k = ''qr'' then Continue (c, prints (generate_qr_ascii h (url c)) w1)
                   else if k \<in> set [''help'', ''h'', ''?''] then
                     Continue (c, prints ''Commands: start stop dir <path> port <num> url qr help quit'' w1)
                   else Continue (c, prints ''Unknown command'' w1)))))"

text \<open>
  The states of a PyShareCLI session: the state \<open>__init__\<close> leaves (no server process
  of this controller exists before), any pass through the loop that goes on, on any host
  condition, and the exit of a server process on its own.
\<close>

inductive reach :: "controller \<times> world \<Rightarrow> bool" where
  init: "alive w = {} \<Longrightarrow> reach (init_cli h cwd w)"
| iter: "reach s \<Longrightarrow> repl_iter h s = Continue s' \<Longrightarrow> reach s'"
| exit: "reach (c, w) \<Longrightarrow> reach (c, w\<lparr>alive := alive w - {n}\<rparr>)"

subsection \<open>PyShareRich\<close>

definition rich_start_server :: "host \<Rightarrow> controller \<times> world \<Rightarrow> controller \<times> world" where
  "rich_start_server h s =
     (case s of (c, w) \<Rightarrow>
        if running c w then (c, w)
        else
          (case spawn (shared_dir c) (port c) w of (p, w1) \<Rightarrow>
             (let c1 = c\<lparr>proc := Some p\<rparr>
              in (c1\<lparr>url := share_url (get_local_ip_sock h) (port c1)\<rparr>, w1))))"

definition rich_stop_server :: "controller \<times> world \<Rightarrow> controller \<times> world" where
  "rich_stop_server s =
     (case s of (c, w) \<Rightarrow>
        (c\<lparr>proc := None, url := []\<rparr>,
         (case proc c of
            None \<Rightarrow> w
          | Some p \<Rightarrow> if is_alive p w then terminate_join p w else w)))"

definition toggle_server :: "host \<Rightarrow> controller \<times> world \<Rightarrow> controller \<times> world" where
  "toggle_server h s =
     (case s of (c, w) \<Rightarrow> if running c w then rich_stop_server (c, w) else rich_start_server h (c, w))"

text \<open>\<open>__init__\<close>: the start is wrapped in a \<open>try\<close> that leaves the server stopped on an
  exception; the start of the model raises none.\<close>

definition init_rich :: "host \<Rightarrow> string \<Rightarrow> world \<Rightarrow> controller \<times> world" where
  "init_rich h cwd w = rich_start_server h (\<lparr>shared_dir = cwd, port = 8000, proc = None, url = []\<rparr>, w)"

text \<open>
  \<open>console.print\<close> and the prompt of \<open>console.input\<close> render their text as console
  markup. A text without an opening bracket is taken as it is; otherwise the renderer
  may raise \<open>MarkupError\<close>. The line recorded is the text handed over; prompts are not
  recorded.
\<close>

definition renders :: "host \<Rightarrow> string \<Rightarrow> bool" where
  "renders h t = (\<not> (CHR ''['' \<in> set t \<and> markup_error h t))"

definition console_print :: "host \<Rightarrow> string \<Rightarrow> world \<Rightarrow> py_error + world" where
  "console_print h t w = (if renders h t then Inr (prints t w) else Inl MarkupError)"

definition console_input :: "host \<Rightarrow> string \<Rightarrow> world \<Rightarrow> (py_error + string) \<times> world" where
  "console_input h prompt w = (if renders h prompt then read_line w else (Inl MarkupError, w))"

text \<open>\<open>change_dir\<close> and \<open>change_port\<close> read one line; an empty line stands for the current
  value. A method returns, or an exception leaves it: the methods catch none of
  \<open>console.input\<close> or \<open>console.print\<close>, and \<open>ValueError\<close> only around \<open>int\<close>.\<close>

datatype 'a outcome = Returns 'a | Raises py_error 'a

definition change_dir :: "host \<Rightarrow> controller \<times> world \<Rightarrow> (controller \<times> world) outcome" where
  "change_dir h s =
     (case s of (c, w) \<Rightarrow>
        (case console_input h (''Enter directory (current: '' @ shared_dir c @ ''): '') w of
           (Inl e, w1) \<Rightarrow> Raises e (c, w1)
         | (Inr l, w1) \<Rightarrow>
             (let new = (if l \<noteq> [] then l else shared_dir c)
              in if isdir h new then
                   (let c1 = c\<lparr>shared_dir := new\<rparr>
                    in if running c1 w1 then Returns (rich_start_server h (rich_stop_server (c1, w1)))
                       else Returns (c1, w1))
                 else
                   (case console_print h
                           (''[red]'' @ [CHR 0x27] @ new @ [CHR 0x27] @ '' is not a directory[/red]'') w1 of
                      Inl e \<Rightarrow> Raises e (c, w1)
                    | Inr w2 \<Rightarrow> Returns (c, w2)))))"

definition change_port :: "host \<Rightarrow> controller \<times> world \<Rightarrow> (controller \<times> world) outcome" where
  "change_port h s =
     (case s of (c, w) \<Rightarrow>
        (case console_input h (''Enter port (current: '' @ str_int (port c) @ ''): '') w of
           (Inl e, w1) \<Rightarrow> Raises e (c, w1)
         | (Inr l, w1) \<Rightarrow>
             (let new = (if l \<noteq> [] then l else str_int (port c))
              in case py_int new of
                   None \<Rightarrow>
                     (case console_print h ''[red]Invalid port[/red]'' w1 of
                        Inl e \<Rightarrow> Raises e (c, w1)
                      | Inr w2 \<Rightarrow> Returns (c, w2))
                 | Some p \<Rightarrow>
                     if 1024 \<le> p \<and> p \<le> 65535 then
                       (let c1 = c\<lparr>port := p\<rparr>
                        in if running c1 w1 then Returns (rich_start_server h (rich_stop_server (c1, w1)))
                           else Returns (c1, w1))
                     else
                       (case console_print h ''[red]Port must be 1024-65535[/red]'' w1 of
                          Inl e \<Rightarrow> Raises e (c, w1)
                        | Inr w2 \<Rightarrow> Returns (c, w2)))))"

text \<open>
  One pass through the loop of \<open>run\<close> for the key \<open>ch\<close> that \<open>_get_single_key\<close> returned.
  The \<open>except\<close> clause catches \<open>EOFError\<close> (and \<open>KeyboardInterrupt\<close>, not modelled), stops
  the server and leaves the loop; any other exception leaves \<open>run\<close> and ends the
  program, and the server process, a daemon, ends with it. The display is left out.
\<close>

definition after_method :: "(controller \<times> world) outcome \<Rightarrow> (controller \<times> world) flow" where
  "after_method r =
     (case r of
        Returns s \<Rightarrow> Continue s
      | Raises e s \<Rightarrow> if e = EOFError then Break (rich_stop_server s) else Raise e s)"

definition run_key :: "host \<Rightarrow> string \<Rightarrow> controller \<times> world \<Rightarrow> (controller \<times> world) flow" where
  "run_key h ch s =
     (let key = py_lower (py_strip ch)
      in if key = [] then Continue s
         else if key = ''s'' then Continue (toggle_server h s)
         else if key = ''d'' then after_method (change_dir h s)
         else if key = ''p'' then after_method (change_port h s)
         else if key = ''q'' then Break (rich_stop_server s)
         else
           (case console_print h ''Unknown command'' (snd s) of
              Inl e \<Rightarrow> Raise e s
            | Inr w1 \<Rightarrow> Continue (fst s, w1)))"

subsection \<open>PyShareApp\<close>

text \<open>
  \<open>server_process\<close> is a reactive attribute: assigning a value that differs from the one
  held runs \<open>watch_server_process\<close> with the new value before the assignment returns. A
  process object just created and \<open>None\<close> both differ from a running process held, so
  the two assignments of the action methods run the watch method. The updates of the
  displayed widgets are left out.
\<close>

definition watch_server_process ::
  "host \<Rightarrow> process option \<Rightarrow> controller \<times> world \<Rightarrow> controller \<times> world" where
  "watch_server_process h new_process s =
     (case s of (c, w) \<Rightarrow>
        (case new_process of
           None \<Rightarrow> (c\<lparr>url := []\<rparr>, w)
         | Some p \<Rightarrow>
             if is_alive p w then (c\<lparr>url := share_url (get_local_ip h) (port c)\<rparr>, w)
             else (c\<lparr>url := []\<rparr>, w)))"

definition action_start_server :: "host \<Rightarrow> controller \<times> world \<Rightarrow> controller \<times> world" where
  "action_start_server h s =
     (case s of (c, w) \<Rightarrow>
        if running c w then (c, w)
        else
          (case spawn (shared_dir c) (port c) w of (p, w1) \<Rightarrow>
             watch_server_process h (Some p) (c\<lparr>proc := Some p\<rparr>, w1)))"

definition action_stop_server :: "host \<Rightarrow> controller \<times> world \<Rightarrow> controller \<times> world" where
  "action_stop_server h s =
     (case s of (c, w) \<Rightarrow>
        (case proc c of
           None \<Rightarrow> (c, w)
         | Some p \<Rightarrow>
             if is_alive p w then watch_server_process h None (c\<lparr>proc := None\<rparr>, terminate_join p w)
             else (c, w)))"

subsection \<open>The invariant of a session\<close>

text \<open>
  What holds in every state of a PyShareCLI session (used in the proofs below): the port
  is in range; without a process handle the URL is empty and no server process runs;
  with a handle, at most that process runs, the URL carries the port it was started
  with, and while it runs it was started with the stored directory and port.
\<close>

definition consistent :: "controller \<times> world \<Rightarrow> bool" where
  "consistent s =
     (case s of (c, w) \<Rightarrow>
        1024 \<le> port c \<and> port c \<le> 65535 \<and>
        (case proc c of
           None \<Rightarrow> url c = [] \<and> alive w = {}
         | Some p \<Rightarrow>
             alive w \<subseteq> {pid p} \<and> pid p < fresh w \<and>
             (\<exists>ip. url c = share_url ip (target_port p)) \<and>
             (is_alive p w \<longrightarrow> target_dir p = shared_dir c \<and> target_port p = port c)))"

section \<open>Example hosts and sessions\<close>

text \<open>A host on a network with a shared directory, and the same machine later: off the
  network, the directory removed. On the first, the markup renderer rejects the message
  of \<open>change_dir\<close> for the path \<open>[/x]\<close>.\<close>

definition host_up :: host where
  "host_up =
     \<lparr>isdir = (\<lambda>p. p \<in> set [''/srv/share'', ''/srv/other'']),
      udp_probe = Inr ''192.168.1.20'',
      interfaces = Inr [''lo'', ''eth0''],
      ifaddresses = (\<lambda>i. if i = ''lo'' then Inr [AF_INET \<mapsto> [[''addr'' \<mapsto> ''127.0.0.1'']]]
                          else if i = ''eth0'' then Inr [AF_INET \<mapsto> [[''addr'' \<mapsto> ''192.168.1.20'']]]
                          else Inl ValueError),
      qr_ascii = (\<lambda>u. ''#''),
      markup_error = (\<lambda>t. t = ''[red]'' @ [CHR 0x27] @ ''[/x]'' @ [CHR 0x27] @ '' is not a directory[/red]'')\<rparr>"

definition host_down :: host where
  "host_down =
     \<lparr>isdir = (\<lambda>p. False),
      udp_probe = Inl OSError,
      interfaces = Inr [''lo''],
      ifaddresses = (\<lambda>i. if i = ''lo'' then Inr [AF_INET \<mapsto> [[''addr'' \<mapsto> ''127.0.0.1'']]]
                          else Inl ValueError),
      qr_ascii = (\<lambda>u. ''#''),
      markup_error = (\<lambda>t. False)\<rparr>"

definition world0 :: world where
  "world0 = \<lparr>alive = {}, fresh = 0, stdin = [''stop'', ''start''], console = []\<rparr>"

text \<open>A session: the CLI is started in \<open>/srv/share\<close>; the state after the command
  \<open>stop\<close>; and the state in which the server process has exited on its own instead.\<close>

definition session_started :: "controller \<times> world" where
  "session_started = init_cli host_up ''/srv/share'' world0"

definition session_stopped :: "controller \<times> world" where
  "session_stopped =
     (stop_server (fst session_started, (snd session_started)\<lparr>stdin := [''start'']\<rparr>))"

definition session_crashed :: "controller \<times> world" where
  "session_crashed = (fst session_started, (snd session_started)\<lparr>alive := alive (snd session_started) - {0}\<rparr>)"

text \<open>A PyShareRich session started in \<open>/srv/share\<close>, with one line still to be typed.\<close>

definition rich_session :: "string \<Rightarrow> controller \<times> world" where
  "rich_session line =
     init_rich host_up ''/srv/share'' \<lparr>alive = {}, fresh = 0, stdin = [line], console = []\<rparr>"


section \<open>Facts about the string helpers\<close>

declare str_nat.simps [simp del]

lemma str_nat_small: "n < 10 \<Longrightarrow> str_nat n = [''0123456789'' ! n]"
  by (simp add: str_nat.simps)

lemma str_nat_big: "\<not> n < 10 \<Longrightarrow> str_nat n = str_nat (n div 10) @ [''0123456789'' ! (n mod 10)]"
  by (subst str_nat.simps) simp

lemma digit_chars: "n < 10 \<Longrightarrow> ''0123456789'' ! n \<in> set ''0123456789''"
  by (rule nth_mem) simp

lemma str_nat_digits: "set (str_nat n) \<subseteq> set ''0123456789''"
proof (induction n rule: str_nat.induct)
  case (1 n)
  show ?case
  proof (cases "n < 10")
    case True
    then show ?thesis using digit_chars [of n] by (simp add: str_nat_small)
  next
    case False
    have m: "n mod 10 < 10" by simp
    have e: "str_nat n = str_nat (n div 10) @ [''0123456789'' ! (n mod 10)]"
      using False by (rule str_nat_big)
    show ?thesis unfolding e using digit_chars [OF m] 1 [OF False] by auto
  qed
qed

lemma str_nat_no_dot: "CHR ''.'' \<notin> set (str_nat n)"
  using str_nat_digits [of n] by auto

lemma str_nat_nonempty: "str_nat n \<noteq> []"
  by (cases "n < 10") (simp_all add: str_nat_small str_nat_big)

lemma digit_inj: "a < 10 \<Longrightarrow> b < 10 \<Longrightarrow> ''0123456789'' ! a = ''0123456789'' ! b \<Longrightarrow> a = b"
proof -
  have d: "distinct ''0123456789''" by simp
  assume "a < 10" "b < 10" "''0123456789'' ! a = ''0123456789'' ! b"
  then show "a = b" using d by (simp add: nth_eq_iff_index_eq)
qed

lemma str_nat_inj: "str_nat a = str_nat b \<Longrightarrow> a = b"
proof (induction a arbitrary: b rule: str_nat.induct)
  case (1 a)
  show ?case
  proof (cases "a < 10")
    case True
    show ?thesis
    proof (cases "b < 10")
      case b: True
      from "1.prems" True b show ?thesis by (simp add: str_nat_small digit_inj)
    next
      case b: False
      from "1.prems" True b str_nat_nonempty [of "b div 10"] show ?thesis
        by (simp add: str_nat_small str_nat_big Cons_eq_append_conv)
    qed
  next
    case False
    show ?thesis
    proof (cases "b < 10")
      case b: True
      from "1.prems" False b str_nat_nonempty [of "a div 10"] show ?thesis
        by (simp add: str_nat_small str_nat_big append_eq_Cons_conv)
    next
      case b: False
      from "1.prems" False b have e: "str_nat (a div 10) = str_nat (b div 10)"
        and f: "''0123456789'' ! (a mod 10) = ''0123456789'' ! (b mod 10)"
        by (simp_all add: str_nat_big)
      from "1.IH" [OF False e] have "a div 10 = b div 10" .
      moreover from f have "a mod 10 = b mod 10" by (simp add: digit_inj)
      ultimately show ?thesis by (metis div_mult_mod_eq)
    qed
  qed
qed

lemma prefix_up_to_dot:
  "CHR ''.'' \<notin> set s \<Longrightarrow> CHR ''.'' \<notin> set t \<Longrightarrow>
   prefix (t @ ''.'') (s @ ''.'' @ r) \<longleftrightarrow> s = t"
proof (induction t arbitrary: s)
  case Nil
  then show ?case by (cases s) auto
next
  case (Cons y t)
  then show ?case by (cases s) auto
qed

lemma loopback_octet: "startswith (dotted a b c d) ''127.'' \<longleftrightarrow> a = 127"
proof -
  have e: "str_nat 127 = ''127''" by (simp add: str_nat_small str_nat_big)
  have "startswith (dotted a b c d) ''127.'' \<longleftrightarrow>
        prefix (''127'' @ ''.'') (str_nat a @ ''.'' @ (str_nat b @ ''.'' @ str_nat c @ ''.'' @ str_nat d))"
    by (simp add: startswith_def dotted_def)
  also have "\<dots> \<longleftrightarrow> str_nat a = ''127''"
    by (rule prefix_up_to_dot) (simp_all add: str_nat_no_dot)
  also have "\<dots> \<longleftrightarrow> a = 127"
    using str_nat_inj [of a 127] e by auto
  finally show ?thesis .
qed

lemma py_int_separator: "py_int (CHR 0x1F # ''9000'') = None" "py_int (CHR 0x0B # ''9000 '') = Some 9000"
  by (simp_all add: py_int_def int_strip_def int_isspace_def py_nat_def is_digit_def digit_val_def)

lemma collect_files_eq: "collect_files as fs = fs @ map as_entry (filter wanted as)"
  by (induction as arbitrary: fs) (auto simp: wanted_def as_entry_def split: option.splits)

lemma parse_idxs_eq: "parse_idxs parts idxs = idxs @ map (\<lambda>v. v - 1) (List.map_filter py_int parts)"
  by (induction parts arbitrary: idxs) (auto simp: List.map_filter_simps split: option.splits)

lemma pick_eq:
  "pick fs idxs acc = acc @ map (\<lambda>i. fs ! nat i) (filter (\<lambda>i. 0 \<le> i \<and> i < int (length fs)) idxs)"
  by (induction idxs arbitrary: acc) auto

lemma shift_indices:
  "map (\<lambda>i. fs ! nat i) (filter (\<lambda>i. 0 \<le> i \<and> i < n) (map (\<lambda>v. v - 1) xs)) =
   map (\<lambda>v. fs ! nat (v - 1)) (filter (\<lambda>v. 1 \<le> v \<and> v \<le> n) xs)"
  by (induction xs) auto

lemma select_indices:
  "py_lower choice \<noteq> ''all'' \<Longrightarrow>
   select fs choice =
     map (\<lambda>i. fs ! nat (i - 1))
       (filter (\<lambda>i. 1 \<le> i \<and> i \<le> int (length fs)) (List.map_filter py_int (py_split choice)))"
  by (simp add: select_def parse_idxs_eq pick_eq shift_indices)

lemma gets_print [simp]: "gets (print l w) = gets w"
  by (simp add: print_def)

lemma gets_write_chunks [simp]: "gets (write_chunks p cs w) = gets w"
  by (induction cs arbitrary: w) (auto simp: f_write_def)

lemma gets_download_file:
  "gets (snd (download_file lib base href dest w)) = gets w @ [urljoin lib base href]"
  by (auto simp: download_file_def requests_get_def open_wb_def Let_def split: sum.splits option.splits prod.splits)

lemma gets_download_all:
  "gets (download_all lib u sel w) = gets w @ map (\<lambda>(name, href). urljoin lib u href) sel"
proof (induction sel arbitrary: w)
  case Nil
  then show ?case by simp
next
  case (Cons e sel)
  obtain name href where e: "e = (name, href)" by (cases e)
  let ?w1 = "print (Line (''Downloading '' @ name @ ''...'')) w"
  obtain r w2 where d: "download_file lib u href ''.'' ?w1 = (r, w2)" by (cases "download_file lib u href ''.'' ?w1")
  have g: "gets w2 = gets w @ [urljoin lib u href]"
    using gets_download_file [of lib u href "''.''" ?w1] d by simp
  show ?case
    unfolding e download_all.simps Let_def d
    by (cases r) (simp_all add: Cons.IH g)
qed

lemma basename_no_slash: "CHR ''/'' \<notin> set (basename p)"
  by (auto simp: basename_def dest: set_takeWhileD)

lemma basename_final_segment:
  "\<exists>pre. p = pre @ basename p \<and> (pre = [] \<or> last pre = CHR ''/'')"
proof -
  let ?P = "\<lambda>c. c \<noteq> CHR ''/''"
  let ?pre = "rev (dropWhile ?P (rev p))"
  have "?pre @ basename p = rev (takeWhile ?P (rev p) @ dropWhile ?P (rev p))"
    unfolding basename_def by (rule rev_append [symmetric])
  then have 1: "p = ?pre @ basename p" by simp
  have 2: "?pre = [] \<or> last ?pre = CHR ''/''"
  proof (cases "dropWhile ?P (rev p)")
    case Nil
    then show ?thesis by simp
  next
    case (Cons c cs)
    then have "\<not> ?P c" using hd_dropWhile [of ?P "rev p"] by (metis list.sel(1) list.simps(3))
    with Cons show ?thesis by simp
  qed
  from 1 2 show ?thesis by blast
qed

lemma path_join_plain:
  "CHR ''/'' \<notin> set b \<Longrightarrow>
   path_join a b = (if a = [] \<or> endswith a ''/'' then a @ b else a @ ''/'' @ b)"
  by (cases b) (auto simp: path_join_def startswith_def)

lemma locate_f_write [simp]: "locate (f_write p c w) = locate w"
  by (simp add: f_write_def)

lemma files_write_chunks:
  "files w (locate w p) = Some old \<Longrightarrow>
   files (write_chunks p cs w) = (files w)(locate w p \<mapsto> old @ concat cs)"
proof (induction cs arbitrary: w old)
  case Nil
  then show ?case by (simp add: fun_upd_idem)
next
  case (Cons c cs)
  show ?case
  proof (cases "c = []")
    case True
    with Cons show ?thesis by simp
  next
    case False
    have fw: "files (f_write p c w) = (files w)(locate w p \<mapsto> old @ c)"
      using Cons.prems by (simp add: f_write_def)
    have "files (write_chunks p cs (f_write p c w)) =
          (files (f_write p c w))(locate (f_write p c w) p \<mapsto> (old @ c) @ concat cs)"
      by (rule Cons.IH) (simp add: fw)
    with False show ?thesis by (simp add: fw)
  qed
qed

lemma printed_write_chunks [simp]: "printed (write_chunks p cs w) = printed w"
  by (induction cs arbitrary: w) (auto simp: f_write_def)


section \<open>The receiver: listing\<close>

text \<open>
  Claim C5. A directory-listing page has one anchor per file or subdirectory, each with
  the entry's name as target; in particular no anchor has an empty target. For every
  such page fetched with a success status, \<open>list_files\<close> returns exactly the anchors
  whose \<open>href\<close> does not end in a slash, each as the pair of its text (stripped of
  surrounding whitespace) and its \<open>href\<close>, in document order; the anchors whose
  \<open>href\<close> ends in a slash are left out, and the result is empty when no anchor
  qualifies. On any page at all, the anchors returned are those with a non-empty
  \<open>href\<close> not ending in a slash.
\<close>

theorem list_files_wanted_anchors:
  assumes "remote w (length (gets w)) u = Inr r" and "raise_for_status r = None"
  shows "((\<forall>a \<in> set (find_all_a (body_text r)). a_get a ''href'' \<noteq> Some []) \<longrightarrow>
            fst (list_files find_all_a u w) = Inr (spec_list_entries (find_all_a (body_text r)))) \<and>
         fst (list_files find_all_a u w) =
           Inr (map as_entry (filter wanted (find_all_a (body_text r))))"
proof -
  let ?as = "find_all_a (body_text r)"
  have 1: "fst (list_files find_all_a u w) = Inr (map as_entry (filter wanted ?as))"
    using assms by (simp add: list_files_def requests_get_def collect_files_eq)
  have 2: "spec_list_entries ?as = map as_entry (filter wanted ?as)"
    if "\<forall>a \<in> set ?as. a_get a ''href'' \<noteq> Some []"
  proof -
    have "filter (\<lambda>a. case a_get a ''href'' of None \<Rightarrow> False | Some h \<Rightarrow> \<not> endswith h ''/'') ?as =
          filter wanted ?as"
      using that by (intro filter_cong refl) (auto simp: wanted_def split: option.splits)
    then show ?thesis by (simp add: spec_list_entries_def as_entry_def)
  qed
  from 1 2 show ?thesis by simp
qed

theorem list_files_wanted_anchors_witness:
  "remote rworld0 (length (gets rworld0)) ''http://10.0.0.5:8000/'' =
     Inr \<lparr>status = 200, body_text = ''<a href=...>'', chunks = [], cut = False\<rparr> \<and>
   raise_for_status \<lparr>status = 200, body_text = ''<a href=...>'', chunks = [], cut = False\<rparr> = None \<and>
   fst (list_files (\<lambda>t. page3) ''http://10.0.0.5:8000/'' rworld0) =
     Inr [(''a.txt'', ''a.txt''), (''b.png'', ''b.png'')] \<and>
   fst (list_files (\<lambda>t. page3) ''http://10.0.0.5:8000/'' rworld0) = Inr (spec_list_entries page3)"
proof -
  have h1: "remote rworld0 (length (gets rworld0)) ''http://10.0.0.5:8000/'' =
     Inr \<lparr>status = 200, body_text = ''<a href=...>'', chunks = [], cut = False\<rparr>"
    by (simp add: rworld0_def share0_def)
  have h2: "raise_for_status \<lparr>status = 200, body_text = ''<a href=...>'', chunks = [], cut = False\<rparr> = None"
    by (simp add: raise_for_status_def)
  have m: "map as_entry (filter wanted page3) = [(''a.txt'', ''a.txt''), (''b.png'', ''b.png'')]"
    by (simp add: page3_def wanted_def as_entry_def a_get_def endswith_def py_strip_def py_isspace_def)
  have h3: "\<forall>a \<in> set page3. a_get a ''href'' \<noteq> Some []"
    by (simp add: page3_def a_get_def)
  note t = list_files_wanted_anchors [OF h1 h2, of "\<lambda>t. page3"]
  from t have a: "fst (list_files (\<lambda>t. page3) ''http://10.0.0.5:8000/'' rworld0) =
      Inr (map as_entry (filter wanted page3))"
    by (rule conjunct2)
  from t h3 have b: "fst (list_files (\<lambda>t. page3) ''http://10.0.0.5:8000/'' rworld0) =
      Inr (spec_list_entries page3)"
    by blast
  from h1 h2 a [unfolded m] b show ?thesis by blast
qed

section \<open>The receiver: selection and downloads\<close>

text \<open>
  Claim C6. For a listing \<open>fs\<close> of \<open>n\<close> entries: the choice \<open>all\<close> (in any
  letter case) selects all \<open>n\<close> entries; any other choice selects, in the order typed,
  the entry \<open>i\<close> for each integer \<open>i\<close> typed with \<open>1 \<le> i \<le> n\<close>, and integers outside
  that range select nothing; and one request is issued for each selected entry, in order,
  whatever the remote side answers and whichever downloads fail.
\<close>

theorem selection_attempts:
  "(py_lower choice = ''all'' \<longrightarrow> select fs choice = fs) \<and>
   (py_lower choice \<noteq> ''all'' \<longrightarrow>
      select fs choice =
        map (\<lambda>i. fs ! nat (i - 1))
          (filter (\<lambda>i. 1 \<le> i \<and> i \<le> int (length fs)) (List.map_filter py_int (py_split choice)))) \<and>
   gets (download_all lib u (select fs choice) w) =
     gets w @ map (\<lambda>(name, href). urljoin lib u href) (select fs choice)"
  by (simp add: gets_download_all select_indices) (simp add: select_def)

theorem selection_attempts_witness:
  "py_lower ''ALL'' = ''all'' \<and> py_lower ''1 5'' \<noteq> ''all'' \<and>
   gets (download_all lib0 ''http://10.0.0.5:8000/'' (select listing3 ''ALL'') rworld0) =
     [''http://10.0.0.5:8000/a.txt'', ''http://10.0.0.5:8000/b.png'', ''http://10.0.0.5:8000/c.md''] \<and>
   gets (download_all lib0 ''http://10.0.0.5:8000/'' (select listing3 ''1 5'') rworld0) =
     [''http://10.0.0.5:8000/a.txt'']"
proof -
  let ?u = "''http://10.0.0.5:8000/''"
  have a: "py_lower ''ALL'' = ''all''" by (simp add: py_lower_def lower_char_def)
  have b: "py_lower ''1 5'' \<noteq> ''all''" by (simp add: py_lower_def lower_char_def)
  have c: "List.map_filter py_int (py_split ''1 5'') = [1, 5]"
    by (simp add: List.map_filter_simps py_split_def py_isspace_def py_int_def int_strip_def int_isspace_def py_strip_def py_nat_def
        is_digit_def digit_val_def)
  note t1 = selection_attempts [of "''ALL''" listing3 lib0 ?u rworld0]
  note t2 = selection_attempts [of "''1 5''" listing3 lib0 ?u rworld0]
  from t1 a have s1: "select listing3 ''ALL'' = listing3" by blast
  from t2 b c have s2: "select listing3 ''1 5'' = [(''a.txt'', ''a.txt'')]"
    by (simp add: listing3_def)
  have r1: "gets rworld0 @ map (\<lambda>(name, href). urljoin lib0 ?u href) (select listing3 ''ALL'') =
     [''http://10.0.0.5:8000/a.txt'', ''http://10.0.0.5:8000/b.png'', ''http://10.0.0.5:8000/c.md'']"
    unfolding s1 by (simp add: listing3_def lib0_def rworld0_def)
  have r2: "gets rworld0 @ map (\<lambda>(name, href). urljoin lib0 ?u href) (select listing3 ''1 5'') =
     [''http://10.0.0.5:8000/a.txt'']"
    unfolding s2 by (simp add: lib0_def rworld0_def)
  from t1 r1 have g1: "gets (download_all lib0 ?u (select listing3 ''ALL'') rworld0) =
     [''http://10.0.0.5:8000/a.txt'', ''http://10.0.0.5:8000/b.png'', ''http://10.0.0.5:8000/c.md'']"
    by (simp only:)
  from t2 r2 have g2: "gets (download_all lib0 ?u (select listing3 ''1 5'') rworld0) =
     [''http://10.0.0.5:8000/a.txt'']"
    by (simp only:)
  from a b g1 g2 show ?thesis by blast
qed

text \<open>
  Claim C10. When the choice is not \<open>all\<close>, the selection is the one obtained from the
  tokens that \<open>int\<close> accepts alone: a token that is not an integer adds nothing, changes
  no other token's index, and raises nothing. The choice \<open>two 2\<close> selects exactly the
  second entry.
\<close>

theorem non_integer_tokens_discarded:
  "(py_lower choice \<noteq> ''all'' \<longrightarrow>
      select fs choice =
        pick fs (parse_idxs (filter (\<lambda>t. py_int t \<noteq> None) (py_split choice)) []) []) \<and>
   (py_int t = None \<longrightarrow> parse_idxs (ps @ t # qs) [] = parse_idxs (ps @ qs) []) \<and>
   (2 \<le> length fs \<longrightarrow>
      select fs ''two 2'' = [fs ! 1] \<and>
      gets (download_all lib u (select fs ''two 2'') w) = gets w @ [urljoin lib u (snd (fs ! 1))])"
proof (intro impI conjI)
  assume "py_lower choice \<noteq> ''all''"
  have "parse_idxs (filter (\<lambda>t. py_int t \<noteq> None) ts) [] = parse_idxs ts []" for ts
    by (induction ts) (auto simp: parse_idxs_eq List.map_filter_simps)
  then show "select fs choice = pick fs (parse_idxs (filter (\<lambda>t. py_int t \<noteq> None) (py_split choice)) []) []"
    using \<open>py_lower choice \<noteq> ''all''\<close> by (simp add: select_def)
next
  assume "py_int t = None"
  then show "parse_idxs (ps @ t # qs) [] = parse_idxs (ps @ qs) []"
    by (simp add: parse_idxs_eq List.map_filter_def)
next
  assume "2 \<le> length fs"
  then show s: "select fs ''two 2'' = [fs ! 1]"
    by (simp add: select_def py_lower_def lower_char_def py_split_def py_isspace_def py_int_def int_strip_def int_isspace_def
        py_strip_def py_nat_def is_digit_def digit_val_def)
  show "gets (download_all lib u (select fs ''two 2'') w) = gets w @ [urljoin lib u (snd (fs ! 1))]"
    unfolding s gets_download_all by (simp add: case_prod_beta)
qed

theorem non_integer_tokens_discarded_witness:
  "py_lower ''two 2'' \<noteq> ''all'' \<and> py_int ''two'' = None \<and> 2 \<le> length listing3 \<and>
   select listing3 ''two 2'' = [(''b.png'', ''b.png'')] \<and>
   parse_idxs ([] @ ''two'' # [''2'']) [] = parse_idxs ([] @ [''2'']) [] \<and>
   gets (download_all lib0 ''http://10.0.0.5:8000/'' (select listing3 ''two 2'') rworld0) =
     [''http://10.0.0.5:8000/b.png'']"
proof -
  have a: "py_lower ''two 2'' \<noteq> ''all''" by (simp add: py_lower_def lower_char_def)
  have b: "py_int ''two'' = None"
    by (simp add: py_int_def int_strip_def int_isspace_def py_strip_def py_isspace_def py_nat_def is_digit_def)
  have c: "2 \<le> length listing3" by (simp add: listing3_def)
  have d: "listing3 ! 1 = (''b.png'', ''b.png'')" by (simp add: listing3_def)
  have g: "gets rworld0 @ [urljoin lib0 ''http://10.0.0.5:8000/'' (snd (''b.png'', ''b.png''))] =
           [''http://10.0.0.5:8000/b.png'']"
    by (simp add: rworld0_def lib0_def)
  note t = non_integer_tokens_discarded
    [of "''two 2''" listing3 "''two''" "[]" "[''2'']" lib0 "''http://10.0.0.5:8000/''" rworld0]
  from t a c have e: "select listing3 ''two 2'' = [listing3 ! 1]" by blast
  from t a b have f: "parse_idxs ([] @ ''two'' # [''2'']) [] = parse_idxs ([] @ [''2'']) []" by blast
  from t c have h: "gets (download_all lib0 ''http://10.0.0.5:8000/'' (select listing3 ''two 2'') rworld0) =
      gets rworld0 @ [urljoin lib0 ''http://10.0.0.5:8000/'' (snd (listing3 ! 1))]"
    by blast
  from a b c e [unfolded d] f h [unfolded d g] show ?thesis by blast
qed

text \<open>
  Claim C9, as amended. The local name is the part of the resolved URL's path after its
  last slash, and the target path is the destination directory joined with it. One
  request is issued and nothing is printed. When the request raises, answers with an
  error status, or the target cannot be opened for writing, the download fails with that
  error and the files are as before, an existing target included. Otherwise the file
  the target path names holds exactly the chunks received (all of them, or those received
  before the transfer broke off), whatever it held before and whether or not it
  existed, and every other file is as before.
\<close>

theorem download_file_outcomes:
  assumes "u = urljoin lib base href"
    and "name = basename (url_path lib u)"
    and "p = path_join dest name"
  shows "CHR ''/'' \<notin> set name \<and>
         (\<exists>pre. url_path lib u = pre @ name \<and> (pre = [] \<or> last pre = CHR ''/'')) \<and>
         p = (if dest = [] \<or> endswith dest ''/'' then dest @ name else dest @ ''/'' @ name) \<and>
         gets (snd (download_file lib base href dest w)) = gets w @ [u] \<and>
         printed (snd (download_file lib base href dest w)) = printed w \<and>
         (case remote w (length (gets w)) u of
            Inl e \<Rightarrow>
              fst (download_file lib base href dest w) = Inl e \<and>
              files (snd (download_file lib base href dest w)) = files w
          | Inr r \<Rightarrow>
              (case raise_for_status r of
                 Some e \<Rightarrow>
                   fst (download_file lib base href dest w) = Inl e \<and>
                   files (snd (download_file lib base href dest w)) = files w
               | None \<Rightarrow>
                   if unwritable w p
                   then fst (download_file lib base href dest w) = Inl OSError \<and>
                        files (snd (download_file lib base href dest w)) = files w
                   else fst (download_file lib base href dest w) =
                          (if cut r then Inl ChunkedEncodingError else Inr p) \<and>
                        files (snd (download_file lib base href dest w)) =
                          (files w)(locate w p \<mapsto> concat (chunks r))))"
proof -
  let ?D = "download_file lib base href dest w"
  let ?w1 = "w\<lparr>gets := gets w @ [u]\<rparr>"
  let ?w2 = "w\<lparr>gets := gets w @ [u], files := (files w)(locate w p \<mapsto> [])\<rparr>"
  have n: "CHR ''/'' \<notin> set name" using assms(2) basename_no_slash by simp
  have seg: "\<exists>pre. url_path lib u = pre @ name \<and> (pre = [] \<or> last pre = CHR ''/'')"
    using assms(2) basename_final_segment by simp
  have pj: "p = (if dest = [] \<or> endswith dest ''/'' then dest @ name else dest @ ''/'' @ name)"
    using assms(3) n by (simp add: path_join_plain)
  have g: "gets (snd ?D) = gets w @ [u]"
    using assms(1) by (simp add: gets_download_file)
  have f: "files (write_chunks p cs ?w2) = (files w)(locate w p \<mapsto> concat cs)" for cs
  proof -
    have "files (write_chunks p cs ?w2) = (files ?w2)(locate ?w2 p \<mapsto> [] @ concat cs)"
      by (rule files_write_chunks) simp
    then show ?thesis by simp
  qed
  have pr: "printed (write_chunks p cs ?w2) = printed w" for cs by simp
  have d: "?D =
      (case remote w (length (gets w)) u of
         Inl e \<Rightarrow> (Inl e, ?w1)
       | Inr r \<Rightarrow>
           (case raise_for_status r of
              Some e \<Rightarrow> (Inl e, ?w1)
            | None \<Rightarrow>
                if unwritable w p then (Inl OSError, ?w1)
                else (if cut r then Inl ChunkedEncodingError else Inr p,
                      write_chunks p (chunks r) ?w2)))"
    using assms
    by (simp add: download_file_def requests_get_def open_wb_def Let_def
        split: sum.splits option.splits)
  have c: "printed (snd ?D) = printed w \<and>
         (case remote w (length (gets w)) u of
            Inl e \<Rightarrow> fst ?D = Inl e \<and> files (snd ?D) = files w
          | Inr r \<Rightarrow>
              (case raise_for_status r of
                 Some e \<Rightarrow> fst ?D = Inl e \<and> files (snd ?D) = files w
               | None \<Rightarrow>
                   if unwritable w p
                   then fst ?D = Inl OSError \<and> files (snd ?D) = files w
                   else fst ?D = (if cut r then Inl ChunkedEncodingError else Inr p) \<and>
                        files (snd ?D) = (files w)(locate w p \<mapsto> concat (chunks r))))"
  proof (cases "remote w (length (gets w)) u")
    case (Inl e)
    then show ?thesis by (simp add: d)
  next
    case (Inr r)
    show ?thesis
    proof (cases "raise_for_status r")
      case (Some e)
      with Inr show ?thesis by (simp add: d)
    next
      case None
      with Inr show ?thesis by (simp add: d f pr)
    qed
  qed
  from n seg pj g c show ?thesis by blast
qed

theorem download_file_outcomes_witness:
  "files rworld0 (locate rworld0 ''./a.txt'') = Some ''old'' \<and>
   fst (download_file lib0 ''http://10.0.0.5:8000/'' ''a.txt'' ''.'' rworld0) = Inr ''./a.txt'' \<and>
   files (snd (download_file lib0 ''http://10.0.0.5:8000/'' ''a.txt'' ''.'' rworld0))
     (locate rworld0 ''./a.txt'') = Some ''hello'' \<and>
   fst (download_file lib0 ''http://10.0.0.5:8000/'' ''a.txt'' [] rworld0) = Inr ''a.txt'' \<and>
   files (snd (download_file lib0 ''http://10.0.0.5:8000/'' ''a.txt'' [] rworld0))
     (locate rworld0 ''./a.txt'') = Some ''hello''"
proof -
  let ?b = "''http://10.0.0.5:8000/''"
  let ?r = "\<lparr>status = 200, body_text = [], chunks = [''he'', [], ''llo''], cut = False\<rparr>"
  have h1: "''http://10.0.0.5:8000/a.txt'' = urljoin lib0 ?b ''a.txt''" by (simp add: lib0_def)
  have h2: "''a.txt'' = basename (url_path lib0 ''http://10.0.0.5:8000/a.txt'')"
    by (simp add: lib0_def basename_def)
  have h3: "''./a.txt'' = path_join ''.'' ''a.txt''"
    by (simp add: path_join_def startswith_def endswith_def)
  have h3': "''a.txt'' = path_join [] ''a.txt''"
    by (simp add: path_join_def startswith_def endswith_def)
  have q: "remote rworld0 (length (gets rworld0)) ''http://10.0.0.5:8000/a.txt'' = Inr ?r"
    by (simp add: rworld0_def share0_def)
  have s: "raise_for_status ?r = None" by (simp add: raise_for_status_def)
  have o: "\<not> unwritable rworld0 ''./a.txt''" "\<not> unwritable rworld0 ''a.txt''"
    by (simp_all add: rworld0_def)
  have old: "files rworld0 (locate rworld0 ''./a.txt'') = Some ''old''"
    by (simp add: rworld0_def disk0_def)
  have l: "locate rworld0 ''./a.txt'' = 1" "locate rworld0 ''a.txt'' = 1"
    by (simp_all add: rworld0_def disk0_def)
  note t = download_file_outcomes [OF h1 h2 h3, of rworld0]
  note t' = download_file_outcomes [OF h1 h2 h3', of rworld0]
  from t have 1: "fst (download_file lib0 ?b ''a.txt'' ''.'' rworld0) = Inr ''./a.txt''"
    and 2: "files (snd (download_file lib0 ?b ''a.txt'' ''.'' rworld0)) =
            (files rworld0)(locate rworld0 ''./a.txt'' \<mapsto> concat (chunks ?r))"
    by (simp_all add: q s o)
  from t' have 3: "fst (download_file lib0 ?b ''a.txt'' [] rworld0) = Inr ''a.txt''"
    and 4: "files (snd (download_file lib0 ?b ''a.txt'' [] rworld0)) =
            (files rworld0)(locate rworld0 ''a.txt'' \<mapsto> concat (chunks ?r))"
    by (simp_all add: q s o)
  have 5: "files (snd (download_file lib0 ?b ''a.txt'' ''.'' rworld0)) (locate rworld0 ''./a.txt'') = Some ''hello''"
    unfolding 2 by simp
  have 6: "files (snd (download_file lib0 ?b ''a.txt'' [] rworld0)) (locate rworld0 ''./a.txt'') = Some ''hello''"
    unfolding 4 l by simp
  from old 1 5 3 6 show ?thesis by blast
qed

text \<open>
  Claim C9 as the specification words it (for every download an existing file at the
  target path is truncated and overwritten) fails when the request does not succeed:
  the connection for \<open>b.png\<close> is refused, the download fails, and the file \<open>./b.png\<close>
  that was there keeps its contents.
\<close>

theorem failed_download_keeps_file_counterexample:
  "path_join ''.'' (basename (url_path lib0 (urljoin lib0 ''http://10.0.0.5:8000/'' ''b.png''))) = ''./b.png'' \<and>
   files rworld0 (locate rworld0 ''./b.png'') = Some ''old png'' \<and>
   fst (download_file lib0 ''http://10.0.0.5:8000/'' ''b.png'' ''.'' rworld0) = Inl ConnectionError \<and>
   files (snd (download_file lib0 ''http://10.0.0.5:8000/'' ''b.png'' ''.'' rworld0))
     (locate rworld0 ''./b.png'') = Some ''old png''"
  by (simp add: download_file_def requests_get_def lib0_def rworld0_def share0_def disk0_def
      basename_def path_join_def startswith_def endswith_def)

section \<open>The session controller\<close>

lemma prints_fields [simp]:
  "alive (prints l w) = alive w" "fresh (prints l w) = fresh w" "stdin (prints l w) = stdin w"
  "console (prints l w) = console w @ [l]"
  by (simp_all add: prints_def)

lemma running_prints [simp]: "running c (prints l w) = running c w"
  by (simp add: running_def is_alive_def split: option.splits)

lemma share_url_nonempty [simp]: "share_url ip p \<noteq> []" "[] \<noteq> share_url ip p"
  by (simp_all add: share_url_def)

lemma start_server_stopped:
  "\<not> running c w \<Longrightarrow>
   start_server h (c, w) =
     (c\<lparr>proc := Some \<lparr>pid = fresh w, target_dir = shared_dir c, target_port = port c\<rparr>,
        url := share_url (get_local_ip_sock h) (port c)\<rparr>,
      prints (''Started server at '' @ share_url (get_local_ip_sock h) (port c) @ '', serving '' @ shared_dir c)
        (w\<lparr>alive := insert (fresh w) (alive w), fresh := Suc (fresh w)\<rparr>))"
  by (simp add: start_server_def spawn_def Let_def)

lemma start_server_running:
  "running c w \<Longrightarrow> start_server h (c, w) = (c, prints ''Server already running'' w)"
  by (simp add: start_server_def)

lemma stop_server_eq:
  "stop_server (c, w) =
     (c\<lparr>proc := None, url := []\<rparr>,
      if running c w then prints ''Server stopped'' (w\<lparr>alive := alive w - {pid (the (proc c))}\<rparr>)
      else prints ''Server is not running'' w)"
  by (simp add: stop_server_def running_def terminate_join_def split: option.splits)

lemma not_running_after_stop: "\<not> running (fst (stop_server s)) (snd (stop_server s))"
  by (cases s) (simp add: stop_server_eq running_def)

lemma consistent_prints [simp]: "consistent (c, prints l w) = consistent (c, w)"
  by (simp add: consistent_def is_alive_def split: option.splits)

lemma consistent_stdin [simp]: "consistent (c, w\<lparr>stdin := ls\<rparr>) = consistent (c, w)"
  by (simp add: consistent_def is_alive_def split: option.splits)

lemma consistent_start: "consistent (c, w) \<Longrightarrow> consistent (start_server h (c, w))"
proof (cases "running c w")
  case True
  assume "consistent (c, w)"
  with True show ?thesis by (simp add: start_server_running)
next
  case False
  assume "consistent (c, w)"
  with False show ?thesis
    by (auto simp: start_server_stopped consistent_def is_alive_def running_def split: option.splits)
qed

lemma consistent_stop: "consistent (c, w) \<Longrightarrow> consistent (stop_server (c, w))"
  by (auto simp: stop_server_eq consistent_def is_alive_def running_def split: option.splits)

lemma consistent_config:
  "consistent (c, w) \<Longrightarrow> \<not> running c w \<Longrightarrow> 1024 \<le> p \<Longrightarrow> p \<le> 65535 \<Longrightarrow>
   consistent (c\<lparr>shared_dir := d, port := p\<rparr>, w)"
  by (auto simp: consistent_def running_def split: option.splits)

lemma consistent_restart:
  "consistent (c, w) \<Longrightarrow> 1024 \<le> p \<Longrightarrow> p \<le> 65535 \<Longrightarrow>
   consistent (start_server h (stop_server (c\<lparr>shared_dir := d, port := p\<rparr>, w)))"
proof -
  assume a: "consistent (c, w)" "1024 \<le> p" "p \<le> 65535"
  obtain c' w' where s: "stop_server (c\<lparr>shared_dir := d, port := p\<rparr>, w) = (c', w')"
    by (cases "stop_server (c\<lparr>shared_dir := d, port := p\<rparr>, w)")
  have "consistent (c', w')"
    using a s by (auto simp: stop_server_eq consistent_def is_alive_def running_def split: option.splits if_splits)
  then show ?thesis unfolding s by (rule consistent_start)
qed

lemma running_config [simp]:
  "running (c\<lparr>shared_dir := d\<rparr>) w = running c w" "running (c\<lparr>port := p\<rparr>) w = running c w"
  by (simp_all add: running_def)

lemma running_stdin [simp]: "running c (w\<lparr>stdin := ls\<rparr>) = running c w"
  by (simp add: running_def is_alive_def split: option.splits)

lemma set_dir_running:
  "running c w \<Longrightarrow> isdir h new \<Longrightarrow>
   set_dir h new (c, w) =
     start_server h (stop_server (c\<lparr>shared_dir := new\<rparr>, prints (''Serving: '' @ new) w))"
  by (simp add: set_dir_def Let_def)

lemma set_dir_stopped:
  "\<not> running c w \<Longrightarrow> isdir h new \<Longrightarrow>
   set_dir h new (c, w) = (c\<lparr>shared_dir := new\<rparr>, prints (''Serving: '' @ new) w)"
  by (simp add: set_dir_def Let_def)

lemma set_dir_refused:
  "\<not> isdir h new \<Longrightarrow> set_dir h new (c, w) = (c, prints ''Not a directory'' w)"
  by (simp add: set_dir_def)

lemma set_port_running:
  "running c w \<Longrightarrow> py_int new = Some p \<Longrightarrow> 1024 \<le> p \<Longrightarrow> p \<le> 65535 \<Longrightarrow>
   set_port h new (c, w) =
     start_server h (stop_server (c\<lparr>port := p\<rparr>, prints (''Port set to '' @ str_int p) w))"
  by (simp add: set_port_def Let_def)

lemma set_port_stopped:
  "\<not> running c w \<Longrightarrow> py_int new = Some p \<Longrightarrow> 1024 \<le> p \<Longrightarrow> p \<le> 65535 \<Longrightarrow>
   set_port h new (c, w) = (c\<lparr>port := p\<rparr>, prints (''Port set to '' @ str_int p) w)"
  by (simp add: set_port_def Let_def)

lemma set_port_refused:
  "py_int new = None \<Longrightarrow> set_port h new (c, w) = (c, prints ''Invalid port'' w)"
  "py_int new = Some p \<Longrightarrow> \<not> (1024 \<le> p \<and> p \<le> 65535) \<Longrightarrow>
   set_port h new (c, w) = (c, prints ''Port must be 1024-65535'' w)"
  by (auto simp: set_port_def)

lemma consistent_set_dir: "consistent (c, w) \<Longrightarrow> consistent (set_dir h new (c, w))"
proof -
  assume a: "consistent (c, w)"
  have p: "1024 \<le> port c" "port c \<le> 65535" using a by (auto simp: consistent_def)
  let ?w1 = "prints (''Serving: '' @ new) w"
  have a1: "consistent (c, ?w1)" using a by simp
  show ?thesis
  proof (cases "isdir h new")
    case False
    with a show ?thesis by (simp add: set_dir_def)
  next
    case True
    show ?thesis
    proof (cases "running c w")
      case True
      have "consistent (start_server h (stop_server (c\<lparr>shared_dir := new, port := port c\<rparr>, ?w1)))"
        by (rule consistent_restart [OF a1 p])
      with \<open>isdir h new\<close> True show ?thesis by (simp add: set_dir_running)
    next
      case False
      then have "\<not> running c ?w1" by simp
      from consistent_config [OF a1 this p, of new] \<open>isdir h new\<close> False show ?thesis
        by (simp add: set_dir_stopped)
    qed
  qed
qed

lemma consistent_set_port: "consistent (c, w) \<Longrightarrow> consistent (set_port h new (c, w))"
proof -
  assume a: "consistent (c, w)"
  show ?thesis
  proof (cases "py_int new")
    case None
    with a show ?thesis by (simp add: set_port_def)
  next
    case (Some p)
    show ?thesis
    proof (cases "1024 \<le> p \<and> p \<le> 65535")
      case False
      with a Some show ?thesis by (simp add: set_port_refused)
    next
      case True
      let ?w1 = "prints (''Port set to '' @ str_int p) w"
      have a1: "consistent (c, ?w1)" using a by simp
      have p: "1024 \<le> p" "p \<le> 65535" using True by auto
      show ?thesis
      proof (cases "running c w")
        case True
        have "consistent (start_server h (stop_server (c\<lparr>shared_dir := shared_dir c, port := p\<rparr>, ?w1)))"
          by (rule consistent_restart [OF a1 p])
        with Some p True show ?thesis by (simp add: set_port_running)
      next
        case False
        then have "\<not> running c ?w1" by simp
        from consistent_config [OF a1 this p, of "shared_dir c"] Some p False show ?thesis
          by (simp add: set_port_stopped)
      qed
    qed
  qed
qed

lemma read_line_Inr: "read_line w = (Inr l, w1) \<Longrightarrow> w1 = w\<lparr>stdin := tl (stdin w)\<rparr>"
  by (auto simp: read_line_def split: list.splits)

lemma new_value_Inr: "new_value args w = (Inr v, w1) \<Longrightarrow> w1 = w \<or> w1 = w\<lparr>stdin := tl (stdin w)\<rparr>"
  by (auto simp: new_value_def read_line_def split: list.splits)

lemma consistent_iter:
  assumes "consistent s" and "repl_iter h s = Continue s'"
  shows "consistent s'"
proof -
  obtain c w where s: "s = (c, w)" by (cases s)
  obtain r w1 where rl: "read_line w = (r, w1)" by (cases "read_line w")
  show ?thesis
  proof (cases r)
    case (Inl e)
    with assms s rl show ?thesis by (simp add: repl_iter_def)
  next
    case (Inr line)
    with rl have w1: "w1 = w\<lparr>stdin := tl (stdin w)\<rparr>" by (simp add: read_line_Inr)
    have c1: "consistent (c, w1)" using assms(1) s w1 by simp
    show ?thesis
    proof (cases "py_split (py_strip line)")
      case Nil
      with assms(2) s rl Inr c1 show ?thesis by (simp add: repl_iter_def)
    next
      case (Cons c0 args)
      obtain v w2 where nv: "new_value args w1 = (v, w2)" by (cases "new_value args w1")
      have c2: "consistent (c, w2)" if "v = Inr x" for x
        using new_value_Inr [of args w1 x w2] nv that c1 by auto
      from assms(2) s rl Inr Cons nv c1 c2 show ?thesis
        by (auto simp: repl_iter_def Let_def consistent_start consistent_stop consistent_set_dir
            consistent_set_port split: if_splits sum.splits)
    qed
  qed
qed

lemma consistent_exit: "consistent (c, w) \<Longrightarrow> consistent (c, w\<lparr>alive := alive w - {n}\<rparr>)"
  by (auto simp: consistent_def is_alive_def split: option.splits)

lemma consistent_init: "alive w = {} \<Longrightarrow> consistent (init_cli h cwd w)"
  unfolding init_cli_def by (rule consistent_start) (simp add: consistent_def)

lemma reach_consistent: "reach s \<Longrightarrow> consistent s"
proof (induction rule: reach.induct)
  case (init w h cwd)
  then show ?case by (rule consistent_init)
next
  case (iter s h s')
  then show ?case by (blast intro: consistent_iter)
next
  case (exit c w n)
  from exit.IH show ?case by (rule consistent_exit)
qed

lemma session_started_eq:
  "session_started =
     (\<lparr>shared_dir = ''/srv/share'', port = 8000,
       proc = Some \<lparr>pid = 0, target_dir = ''/srv/share'', target_port = 8000\<rparr>,
       url = ''http://192.168.1.20:8000''\<rparr>,
      \<lparr>alive = {0}, fresh = 1, stdin = [''stop'', ''start''],
       console = [''Started server at http://192.168.1.20:8000, serving /srv/share'']\<rparr>)"
  by (simp add: session_started_def init_cli_def start_server_def spawn_def running_def world0_def
      host_up_def get_local_ip_sock_def share_url_def str_int_def str_nat_small str_nat_big prints_def)

lemma session_stopped_eq:
  "session_stopped =
     (\<lparr>shared_dir = ''/srv/share'', port = 8000, proc = None, url = []\<rparr>,
      \<lparr>alive = {}, fresh = 1, stdin = [''start''],
       console = [''Started server at http://192.168.1.20:8000, serving /srv/share'', ''Server stopped'']\<rparr>)"
  by (simp add: session_stopped_def session_started_eq stop_server_def is_alive_def terminate_join_def
      prints_def)

lemma reach_session_started: "reach session_started"
  unfolding session_started_def by (rule reach.init) (simp add: world0_def)

lemma repl_iter_stop: "repl_iter host_up session_started = Continue session_stopped"
  by (simp add: session_started_eq session_stopped_eq repl_iter_def read_line_def py_split_def
      py_strip_def py_isspace_def py_lower_def lower_char_def stop_server_def is_alive_def
      terminate_join_def prints_def)

lemma reach_session_stopped: "reach session_stopped"
  using reach_session_started repl_iter_stop by (rule reach.iter)

lemma reach_session_crashed: "reach session_crashed"
proof -
  have "reach (fst session_started, snd session_started)" using reach_session_started by simp
  then show ?thesis unfolding session_crashed_def by (rule reach.exit)
qed

lemma start_server_config [simp]:
  "shared_dir (fst (start_server h s)) = shared_dir (fst s)"
  "port (fst (start_server h s)) = port (fst s)"
  by (cases s; simp add: start_server_def spawn_def Let_def)+

lemma stop_server_config [simp]:
  "shared_dir (fst (stop_server s)) = shared_dir (fst s)"
  "port (fst (stop_server s)) = port (fst s)"
  by (cases s; simp add: stop_server_def)+

lemma action_start_stopped:
  "\<not> running c w \<Longrightarrow>
   action_start_server h (c, w) =
     (c\<lparr>proc := Some \<lparr>pid = fresh w, target_dir = shared_dir c, target_port = port c\<rparr>,
        url := share_url (get_local_ip h) (port c)\<rparr>,
      w\<lparr>alive := insert (fresh w) (alive w), fresh := Suc (fresh w)\<rparr>)"
  by (simp add: action_start_server_def spawn_def watch_server_process_def is_alive_def)

lemma action_stop_running:
  "running c w \<Longrightarrow>
   action_stop_server h (c, w) =
     (c\<lparr>proc := None, url := []\<rparr>, w\<lparr>alive := alive w - {pid (the (proc c))}\<rparr>)"
  by (auto simp: action_stop_server_def running_def watch_server_process_def terminate_join_def
      split: option.splits)

lemma rich_start_stopped:
  "\<not> running c w \<Longrightarrow>
   rich_start_server h (c, w) =
     (c\<lparr>proc := Some \<lparr>pid = fresh w, target_dir = shared_dir c, target_port = port c\<rparr>,
        url := share_url (get_local_ip_sock h) (port c)\<rparr>,
      w\<lparr>alive := insert (fresh w) (alive w), fresh := Suc (fresh w)\<rparr>)"
  by (simp add: rich_start_server_def spawn_def Let_def)

lemma rich_stop_eq:
  "rich_stop_server (c, w) =
     (c\<lparr>proc := None, url := []\<rparr>,
      if running c w then w\<lparr>alive := alive w - {pid (the (proc c))}\<rparr> else w)"
  by (simp add: rich_stop_server_def running_def terminate_join_def split: option.splits)

lemma rich_session_eq:
  "rich_session line =
     (\<lparr>shared_dir = ''/srv/share'', port = 8000,
       proc = Some \<lparr>pid = 0, target_dir = ''/srv/share'', target_port = 8000\<rparr>,
       url = ''http://192.168.1.20:8000''\<rparr>,
      \<lparr>alive = {0}, fresh = 1, stdin = [line], console = []\<rparr>)"
  by (simp add: rich_session_def init_rich_def rich_start_server_def spawn_def running_def
      host_up_def get_local_ip_sock_def share_url_def str_int_def str_nat_small str_nat_big)


text \<open>
  Claim C8. When the controller is Running, \<open>start_server\<close> of the CLI only prints
  that the server is already running, and the start methods of the Rich and Textual
  front ends do nothing at all: the controller (process handle and URL included), the
  set of running processes and the next process identity are as before, so no server is
  launched.
\<close>

theorem start_while_running_is_noop:
  assumes "running c w"
  shows "start_server h (c, w) = (c, prints ''Server already running'' w) \<and>
         alive (snd (start_server h (c, w))) = alive w \<and>
         fresh (snd (start_server h (c, w))) = fresh w \<and>
         rich_start_server h (c, w) = (c, w) \<and>
         action_start_server h (c, w) = (c, w)"
  using assms by (simp add: start_server_running rich_start_server_def action_start_server_def)

theorem start_while_running_is_noop_witness:
  "running (fst session_started) (snd session_started) \<and>
   fst (start_server host_down session_started) = fst session_started \<and>
   url (fst (start_server host_down session_started)) = ''http://192.168.1.20:8000'' \<and>
   alive (snd (start_server host_down session_started)) = {0} \<and>
   fresh (snd (start_server host_down session_started)) = 1"
proof -
  have r: "running (fst session_started) (snd session_started)"
    by (simp add: session_started_eq running_def is_alive_def)
  from start_while_running_is_noop [OF r, of host_down] r show ?thesis
    by (simp add: session_started_eq)
qed





text \<open>
  What holds of claim C7. In the CLI, a path that is not an existing directory makes the
  \<open>dir\<close> command print that it is not a directory and return the controller unchanged:
  same stored directory, same process handle, same run state, same running processes.
  In the Rich front end \<open>change_dir\<close> does the same whenever its message renders.
\<close>

theorem invalid_directory_rejected:
  assumes "\<not> isdir h path"
  shows "set_dir h path (c, w) = (c, prints ''Not a directory'' w) \<and>
         running (fst (set_dir h path (c, w))) (snd (set_dir h path (c, w))) = running c w \<and>
         alive (snd (set_dir h path (c, w))) = alive w \<and>
         fresh (snd (set_dir h path (c, w))) = fresh w \<and>
         (console_input h (''Enter directory (current: '' @ shared_dir c @ ''): '') w =
            (Inr l, w\<lparr>stdin := ls\<rparr>) \<and>
          path = (if l \<noteq> [] then l else shared_dir c) \<longrightarrow>
            change_dir h (c, w) =
              (if renders h (''[red]'' @ [CHR 0x27] @ path @ [CHR 0x27] @ '' is not a directory[/red]'')
               then Returns (c, prints (''[red]'' @ [CHR 0x27] @ path @ [CHR 0x27] @ '' is not a directory[/red]'')
                                   (w\<lparr>stdin := ls\<rparr>))
               else Raises MarkupError (c, w\<lparr>stdin := ls\<rparr>)))"
  using assms
  by (auto simp: set_dir_refused change_dir_def console_print_def)

theorem invalid_directory_rejected_witness:
  "\<not> isdir host_up ''/srv/nothing'' \<and>
   fst (set_dir host_up ''/srv/nothing'' session_started) = fst session_started \<and>
   shared_dir (fst (set_dir host_up ''/srv/nothing'' session_started)) = ''/srv/share'' \<and>
   running (fst (set_dir host_up ''/srv/nothing'' session_started))
           (snd (set_dir host_up ''/srv/nothing'' session_started)) \<and>
   alive (snd (set_dir host_up ''/srv/nothing'' session_started)) = {0} \<and>
   stdin (snd (rich_session ''/srv/nothing'')) = [''/srv/nothing''] \<and>
   change_dir host_up (rich_session ''/srv/nothing'') =
     Returns (fst (rich_session ''/srv/nothing''),
          \<lparr>alive = {0}, fresh = 1, stdin = [],
           console = [''[red]'' @ [CHR 0x27] @ ''/srv/nothing'' @ [CHR 0x27] @ '' is not a directory[/red]'']\<rparr>)"
proof -
  let ?s = "rich_session ''/srv/nothing''"
  let ?m = "''[red]'' @ [CHR 0x27] @ ''/srv/nothing'' @ [CHR 0x27] @ '' is not a directory[/red]''"
  have n: "\<not> isdir host_up ''/srv/nothing''" by (simp add: host_up_def)
  have r: "running (fst session_started) (snd session_started)"
    by (simp add: session_started_eq running_def is_alive_def)
  have i: "stdin (snd ?s) = [''/srv/nothing'']" by (simp add: rich_session_eq)
  have j: "console_input host_up (''Enter directory (current: '' @ shared_dir (fst ?s) @ ''): '') (snd ?s) =
             (Inr ''/srv/nothing'', (snd ?s)\<lparr>stdin := []\<rparr>) \<and>
           ''/srv/nothing'' = (if ''/srv/nothing'' \<noteq> [] then ''/srv/nothing'' else shared_dir (fst ?s))"
    by (simp add: renders_def rich_session_eq console_input_def read_line_def)
  have m: "renders host_up ?m" by (simp add: renders_def host_up_def)
  have k: "(fst ?s, snd ?s) = ?s" by simp
  from invalid_directory_rejected [OF n, of "fst session_started" "snd session_started"] n r
  have 1: "fst (set_dir host_up ''/srv/nothing'' session_started) = fst session_started \<and>
   shared_dir (fst (set_dir host_up ''/srv/nothing'' session_started)) = ''/srv/share'' \<and>
   running (fst (set_dir host_up ''/srv/nothing'' session_started))
           (snd (set_dir host_up ''/srv/nothing'' session_started)) \<and>
   alive (snd (set_dir host_up ''/srv/nothing'' session_started)) = {0}"
    by (simp add: session_started_eq)
  from invalid_directory_rejected [OF n, of "fst ?s" "snd ?s" "''/srv/nothing''" "[]", unfolded k] j
  have "change_dir host_up ?s =
     (if renders host_up ?m then Returns (fst ?s, prints ?m ((snd ?s)\<lparr>stdin := []\<rparr>))
      else Raises MarkupError (fst ?s, (snd ?s)\<lparr>stdin := []\<rparr>))"
    by blast
  with m have "change_dir host_up ?s = Returns (fst ?s, prints ?m ((snd ?s)\<lparr>stdin := []\<rparr>))"
    by (simp only: if_True)
  then have 2: "change_dir host_up ?s =
     Returns (fst ?s,
          \<lparr>alive = {0}, fresh = 1, stdin = [],
           console = [''[red]'' @ [CHR 0x27] @ ''/srv/nothing'' @ [CHR 0x27] @ '' is not a directory[/red]'']\<rparr>)"
    by (simp add: rich_session_eq prints_def)
  from n 1 i 2 show ?thesis by blast
qed

text \<open>
  Claim C7 at the input where the Rich front end breaks it. The line \<open>[/x]\<close> is typed at
  the directory prompt; it names no directory. The message handed to \<open>console.print\<close>
  embeds the path in console markup, the renderer rejects the closing tag, and
  \<open>MarkupError\<close> leaves \<open>change_dir\<close>; \<open>run\<close> catches only \<open>EOFError\<close> and
  \<open>KeyboardInterrupt\<close>, so the exception leaves \<open>run\<close> too and the program ends, its
  server with it, where the claim has an error returned and the run state unchanged.
  The CLI, given the same path, prints its plain message and goes on.
\<close>

theorem change_dir_markup_failure:
  "isdir host_up ''[/x]'' = False \<and>
   change_dir host_up (rich_session ''[/x]'') =
     Raises MarkupError
       (fst (rich_session ''[/x]''), \<lparr>alive = {0}, fresh = 1, stdin = [], console = []\<rparr>) \<and>
   run_key host_up ''d'' (rich_session ''[/x]'') =
     Raise MarkupError
       (fst (rich_session ''[/x]''), \<lparr>alive = {0}, fresh = 1, stdin = [], console = []\<rparr>) \<and>
   set_dir host_up ''[/x]'' session_started =
     (fst session_started, prints ''Not a directory'' (snd session_started))"
proof -
  have n: "isdir host_up ''[/x]'' = False" by (simp add: host_up_def)
  have c: "change_dir host_up (rich_session ''[/x]'') =
     Raises MarkupError
       (fst (rich_session ''[/x]''), \<lparr>alive = {0}, fresh = 1, stdin = [], console = []\<rparr>)"
    by (simp add: rich_session_eq change_dir_def console_input_def console_print_def renders_def
        read_line_def host_up_def)
  have k: "py_lower (py_strip ''d'') = ''d''"
    by (simp add: py_lower_def lower_char_def py_strip_def py_isspace_def)
  have r: "run_key host_up ''d'' (rich_session ''[/x]'') =
     Raise MarkupError
       (fst (rich_session ''[/x]''), \<lparr>alive = {0}, fresh = 1, stdin = [], console = []\<rparr>)"
    unfolding run_key_def k Let_def c by (simp add: after_method_def)
  have s: "set_dir host_up ''[/x]'' session_started =
     (fst session_started, prints ''Not a directory'' (snd session_started))"
    using set_dir_refused [of host_up "''[/x]''" "fst session_started" "snd session_started"] n
    by simp
  from n c r s show ?thesis by blast
qed






lemma reach_port_range: "reach s \<Longrightarrow> 1024 \<le> port (fst s) \<and> port (fst s) \<le> 65535"
  by (drule reach_consistent) (auto simp: consistent_def)

text \<open>
  Claim C1, as amended. \<open>start_server\<close> checks nothing: on every controller in state
  Stopped it launches a server process with the stored directory and port, whatever
  they are, and the controller is Running afterwards (CLI and Textual front ends); the
  CLI prints that the server was started, with its URL and directory, and no error. The
  checks are made when the configuration is changed: the \<open>dir\<close> command stores a path
  only if it is an existing directory at that moment, the \<open>port\<close> command stores a
  port only if \<open>int\<close> accepts the text and the value is in 1024..65535, and in every
  state of a CLI session the stored port is in 1024..65535.
\<close>

theorem start_server_launches_without_checks:
  "(\<not> running c w \<longrightarrow>
      fst (start_server h (c, w)) =
        c\<lparr>proc := Some \<lparr>pid = fresh w, target_dir = shared_dir c, target_port = port c\<rparr>,
          url := share_url (get_local_ip_sock h) (port c)\<rparr> \<and>
      running (fst (start_server h (c, w))) (snd (start_server h (c, w))) \<and>
      alive (snd (start_server h (c, w))) = insert (fresh w) (alive w) \<and>
      console (snd (start_server h (c, w))) =
        console w @ [''Started server at '' @ share_url (get_local_ip_sock h) (port c) @
                     '', serving '' @ shared_dir c] \<and>
      fst (action_start_server h (c, w)) =
        c\<lparr>proc := Some \<lparr>pid = fresh w, target_dir = shared_dir c, target_port = port c\<rparr>,
          url := share_url (get_local_ip h) (port c)\<rparr> \<and>
      running (fst (action_start_server h (c, w))) (snd (action_start_server h (c, w)))) \<and>
   shared_dir (fst (set_dir h new (c, w))) = (if isdir h new then new else shared_dir c) \<and>
   port (fst (set_port h new (c, w))) =
     (case py_int new of
        None \<Rightarrow> port c
      | Some p \<Rightarrow> if 1024 \<le> p \<and> p \<le> 65535 then p else port c) \<and>
   (reach s \<longrightarrow> 1024 \<le> port (fst s) \<and> port (fst s) \<le> 65535)"
proof (intro conjI impI)
  assume n: "\<not> running c w"
  show "fst (start_server h (c, w)) =
        c\<lparr>proc := Some \<lparr>pid = fresh w, target_dir = shared_dir c, target_port = port c\<rparr>,
          url := share_url (get_local_ip_sock h) (port c)\<rparr>"
    by (simp add: start_server_stopped [OF n])
  show "running (fst (start_server h (c, w))) (snd (start_server h (c, w)))"
    by (simp add: start_server_stopped [OF n] running_def is_alive_def)
  show "alive (snd (start_server h (c, w))) = insert (fresh w) (alive w)"
    by (simp add: start_server_stopped [OF n])
  show "console (snd (start_server h (c, w))) =
        console w @ [''Started server at '' @ share_url (get_local_ip_sock h) (port c) @
                     '', serving '' @ shared_dir c]"
    by (simp add: start_server_stopped [OF n])
  show "fst (action_start_server h (c, w)) =
        c\<lparr>proc := Some \<lparr>pid = fresh w, target_dir = shared_dir c, target_port = port c\<rparr>,
          url := share_url (get_local_ip h) (port c)\<rparr>"
    by (simp add: action_start_stopped [OF n])
  show "running (fst (action_start_server h (c, w))) (snd (action_start_server h (c, w)))"
    by (simp add: action_start_stopped [OF n] running_def is_alive_def)
next
  show "shared_dir (fst (set_dir h new (c, w))) = (if isdir h new then new else shared_dir c)"
    by (simp add: set_dir_def Let_def)
next
  show "port (fst (set_port h new (c, w))) =
     (case py_int new of
        None \<Rightarrow> port c
      | Some p \<Rightarrow> if 1024 \<le> p \<and> p \<le> 65535 then p else port c)"
    by (simp add: set_port_def Let_def split: option.splits)
next
  assume "reach s"
  then show "1024 \<le> port (fst s)" and "port (fst s) \<le> 65535"
    using reach_port_range by blast+
qed

lemma start_after_stop_eq:
  "start_server host_down session_stopped =
     (\<lparr>shared_dir = ''/srv/share'', port = 8000,
       proc = Some \<lparr>pid = 1, target_dir = ''/srv/share'', target_port = 8000\<rparr>,
       url = ''http://127.0.0.1:8000''\<rparr>,
      \<lparr>alive = {1}, fresh = 2, stdin = [''start''],
       console = [''Started server at http://192.168.1.20:8000, serving /srv/share'', ''Server stopped'',
                  ''Started server at http://127.0.0.1:8000, serving /srv/share'']\<rparr>)"
  by (simp add: session_stopped_eq start_server_def spawn_def running_def
      host_down_def get_local_ip_sock_def share_url_def str_int_def str_nat_small str_nat_big prints_def)

theorem start_server_launches_without_checks_witness:
  "\<not> running (fst session_stopped) (snd session_stopped) \<and> reach session_stopped \<and>
   proc (fst (start_server host_down session_stopped)) =
     Some \<lparr>pid = 1, target_dir = ''/srv/share'', target_port = 8000\<rparr> \<and>
   running (fst (start_server host_down session_stopped)) (snd (start_server host_down session_stopped)) \<and>
   1024 \<le> port (fst session_stopped) \<and> port (fst session_stopped) \<le> 65535"
proof -
  let ?c = "fst session_stopped" and ?w = "snd session_stopped"
  have s: "(?c, ?w) = session_stopped" by simp
  have n: "\<not> running ?c ?w" by (simp add: session_stopped_eq running_def)
  note t = start_server_launches_without_checks [of ?c ?w host_down _ session_stopped, unfolded s]
  from t n have 1: "fst (start_server host_down session_stopped) =
        ?c\<lparr>proc := Some \<lparr>pid = fresh ?w, target_dir = shared_dir ?c, target_port = port ?c\<rparr>,
          url := share_url (get_local_ip_sock host_down) (port ?c)\<rparr>"
    and 2: "running (fst (start_server host_down session_stopped)) (snd (start_server host_down session_stopped))"
    by blast+
  from t reach_session_stopped have 3: "1024 \<le> port ?c \<and> port ?c \<le> 65535" by blast
  have 4: "proc (fst (start_server host_down session_stopped)) =
     Some \<lparr>pid = 1, target_dir = ''/srv/share'', target_port = 8000\<rparr>"
    unfolding 1 by (simp add: session_stopped_eq)
  from n reach_session_stopped 4 2 3 show ?thesis by blast
qed

text \<open>
  Claim C1 as the specification words it fails: in a session started in \<open>/srv/share\<close>
  and then stopped, with the directory removed since, \<open>start_server\<close> reports no error
  and launches a server process for the missing directory; the controller is Running.
\<close>

theorem start_unvalidated_counterexample:
  "reach session_stopped \<and>
   \<not> running (fst session_stopped) (snd session_stopped) \<and>
   \<not> isdir host_down (shared_dir (fst session_stopped)) \<and>
   running (fst (start_server host_down session_stopped)) (snd (start_server host_down session_stopped)) \<and>
   proc (fst (start_server host_down session_stopped)) =
     Some \<lparr>pid = 1, target_dir = ''/srv/share'', target_port = 8000\<rparr> \<and>
   alive (snd (start_server host_down session_stopped)) = {1} \<and>
   last (console (snd (start_server host_down session_stopped))) =
     ''Started server at http://127.0.0.1:8000, serving /srv/share''"
  using reach_session_stopped
  by (simp add: start_after_stop_eq running_def is_alive_def) (simp add: session_stopped_eq host_down_def)

text \<open>
  Claim C2, as amended. In every state of a CLI session the URL is non-empty exactly
  when the controller holds a process handle, and whenever the state is Running the URL
  is \<open>http://<address>:<port>\<close> with the stored port. A start from Stopped sets the URL
  to that form in all three front ends. \<open>stop_server\<close> of the CLI and of the Rich front
  end always clears the URL and leaves the state Stopped; \<open>action_stop_server\<close> of the
  Textual front end does so when the state is Running and changes nothing otherwise.
  When the server process exits on its own the state is Stopped and the controller,
  its URL included, is as it was.
\<close>

theorem url_follows_process_handle:
  "(reach (c, w) \<longrightarrow>
      (url c = [] \<longleftrightarrow> proc c = None) \<and>
      (running c w \<longrightarrow> url c \<noteq> [] \<and> (\<exists>ip. url c = ''http://'' @ ip @ '':'' @ str_int (port c)))) \<and>
   (\<not> running c w \<longrightarrow>
      url (fst (start_server h (c, w))) = ''http://'' @ get_local_ip_sock h @ '':'' @ str_int (port c) \<and>
      url (fst (rich_start_server h (c, w))) = ''http://'' @ get_local_ip_sock h @ '':'' @ str_int (port c) \<and>
      url (fst (action_start_server h (c, w))) = ''http://'' @ get_local_ip h @ '':'' @ str_int (port c)) \<and>
   url (fst (stop_server (c, w))) = [] \<and>
   \<not> running (fst (stop_server (c, w))) (snd (stop_server (c, w))) \<and>
   url (fst (rich_stop_server (c, w))) = [] \<and>
   \<not> running (fst (rich_stop_server (c, w))) (snd (rich_stop_server (c, w))) \<and>
   (running c w \<longrightarrow>
      url (fst (action_stop_server h (c, w))) = [] \<and>
      \<not> running (fst (action_stop_server h (c, w))) (snd (action_stop_server h (c, w)))) \<and>
   (\<not> running c w \<longrightarrow> action_stop_server h (c, w) = (c, w)) \<and>
   (proc c = Some p \<longrightarrow> \<not> running c (w\<lparr>alive := alive w - {pid p}\<rparr>))"
proof (intro conjI impI)
  assume "reach (c, w)"
  then have k: "consistent (c, w)" by (rule reach_consistent)
  show "url c = [] \<longleftrightarrow> proc c = None"
    using k by (auto simp: consistent_def split: option.splits)
  show "url c \<noteq> []" if "running c w"
    using k that by (auto simp: consistent_def running_def split: option.splits)
  show "\<exists>ip. url c = ''http://'' @ ip @ '':'' @ str_int (port c)" if "running c w"
    using k that by (auto simp: consistent_def running_def share_url_def split: option.splits)
next
  assume n: "\<not> running c w"
  show "url (fst (start_server h (c, w))) = ''http://'' @ get_local_ip_sock h @ '':'' @ str_int (port c)"
    by (simp add: start_server_stopped [OF n] share_url_def)
  show "url (fst (rich_start_server h (c, w))) = ''http://'' @ get_local_ip_sock h @ '':'' @ str_int (port c)"
    by (simp add: rich_start_stopped [OF n] share_url_def)
  show "url (fst (action_start_server h (c, w))) = ''http://'' @ get_local_ip h @ '':'' @ str_int (port c)"
    by (simp add: action_start_stopped [OF n] share_url_def)
next
  show "url (fst (stop_server (c, w))) = []" by (simp add: stop_server_eq)
  show "\<not> running (fst (stop_server (c, w))) (snd (stop_server (c, w)))"
    by (rule not_running_after_stop)
  show "url (fst (rich_stop_server (c, w))) = []" by (simp add: rich_stop_eq)
  show "\<not> running (fst (rich_stop_server (c, w))) (snd (rich_stop_server (c, w)))"
    by (simp add: rich_stop_eq running_def)
next
  assume r: "running c w"
  show "url (fst (action_stop_server h (c, w))) = []" by (simp add: action_stop_running [OF r])
  show "\<not> running (fst (action_stop_server h (c, w))) (snd (action_stop_server h (c, w)))"
    by (simp add: action_stop_running [OF r] running_def)
next
  assume "\<not> running c w"
  then show "action_stop_server h (c, w) = (c, w)"
    by (simp add: action_stop_server_def running_def split: option.splits)
next
  assume "proc c = Some p"
  then show "\<not> running c (w\<lparr>alive := alive w - {pid p}\<rparr>)"
    by (simp add: running_def is_alive_def)
qed

theorem url_follows_process_handle_witness:
  "reach session_started \<and> running (fst session_started) (snd session_started) \<and>
   (url (fst session_started) = [] \<longleftrightarrow> proc (fst session_started) = None) \<and>
   url (fst session_started) \<noteq> [] \<and>
   (\<exists>ip. url (fst session_started) = ''http://'' @ ip @ '':'' @ str_int (port (fst session_started))) \<and>
   url (fst (stop_server session_started)) = [] \<and>
   \<not> running (fst session_stopped) (snd session_stopped) \<and>
   url (fst (start_server host_down session_stopped)) =
     ''http://'' @ get_local_ip_sock host_down @ '':'' @ str_int (port (fst session_stopped)) \<and>
   \<not> running (fst session_crashed) (snd session_crashed) \<and>
   action_stop_server host_up session_crashed = session_crashed \<and>
   url (fst (action_stop_server host_up session_crashed)) = ''http://192.168.1.20:8000''"
proof -
  let ?c = "fst session_started" and ?w = "snd session_started"
  have s: "(?c, ?w) = session_started" by simp
  have s': "(fst session_stopped, snd session_stopped) = session_stopped" by simp
  have r: "running ?c ?w" by (simp add: session_started_eq running_def is_alive_def)
  have n: "\<not> running (fst session_stopped) (snd session_stopped)"
    by (simp add: session_stopped_eq running_def)
  note t = url_follows_process_handle [of ?c ?w host_down, unfolded s]
  note t' = url_follows_process_handle [of "fst session_stopped" "snd session_stopped" host_down, unfolded s']
  from t reach_session_started r have 1:
    "url ?c = [] \<longleftrightarrow> proc ?c = None" "url ?c \<noteq> []"
    "\<exists>ip. url ?c = ''http://'' @ ip @ '':'' @ str_int (port ?c)"
    "url (fst (stop_server session_started)) = []"
    by blast+
  from t' n have 2: "url (fst (start_server host_down session_stopped)) =
     ''http://'' @ get_local_ip_sock host_down @ '':'' @ str_int (port (fst session_stopped))"
    by blast
  have s'': "(fst session_crashed, snd session_crashed) = session_crashed" by simp
  have n': "\<not> running (fst session_crashed) (snd session_crashed)"
    by (simp add: session_crashed_def session_started_eq running_def is_alive_def)
  note t'' = url_follows_process_handle
    [of "fst session_crashed" "snd session_crashed" host_up, unfolded s'']
  from t'' n' have 3: "action_stop_server host_up session_crashed = session_crashed" by blast
  have 4: "url (fst (action_stop_server host_up session_crashed)) = ''http://192.168.1.20:8000''"
    unfolding 3 by (simp add: session_crashed_def session_started_eq)
  from reach_session_started r 1 n 2 n' 3 4 show ?thesis by blast
qed

text \<open>
  Claim C2 as the specification words it fails when the server process exits on its
  own: the state is Stopped and the URL is still the one set at the start.
\<close>

theorem url_survives_server_exit_counterexample:
  "reach session_crashed \<and>
   \<not> running (fst session_crashed) (snd session_crashed) \<and>
   url (fst session_crashed) = ''http://192.168.1.20:8000''"
  using reach_session_crashed
  by (simp add: session_crashed_def session_started_eq running_def is_alive_def)


lemma scan_links_find: "scan_links links = find usable (List.map_filter (\<lambda>l. l ''addr'') links)"
  by (induction links) (auto simp: usable_def List.map_filter_simps split: option.splits)

lemma find_append_cases:
  "find P (xs @ ys) = (case find P xs of None \<Rightarrow> find P ys | Some x \<Rightarrow> Some x)"
  by (induction xs) auto

lemma ipv4_addrs_Cons:
  "ipv4_addrs h (i # ifs) =
     (case ifaddresses h i of
        Inl e \<Rightarrow> []
      | Inr ifaddrs \<Rightarrow>
          (case ifaddrs AF_INET of None \<Rightarrow> [] | Some links \<Rightarrow> List.map_filter (\<lambda>l. l ''addr'') links))
     @ ipv4_addrs h ifs"
  by (simp add: ipv4_addrs_def)

lemma ipv4_addrs_Nil [simp]: "ipv4_addrs h [] = []"
  by (simp add: ipv4_addrs_def)

lemma scan_ifaces_first_usable:
  "(case scan_ifaces h ifs of Inl e \<Rightarrow> ''?.?.?.?'' | Inr None \<Rightarrow> ''?.?.?.?'' | Inr (Some ip) \<Rightarrow> ip) =
   first_usable (ipv4_addrs h (takeWhile (answers h) ifs))"
proof (induction ifs)
  case Nil
  then show ?case by (simp add: first_usable_def)
next
  case (Cons i ifs)
  show ?case
  proof (cases "ifaddresses h i")
    case (Inl e)
    then show ?thesis by (simp add: answers_def first_usable_def)
  next
    case (Inr m)
    then have a: "answers h i" by (simp add: answers_def)
    show ?thesis
    proof (cases "m AF_INET")
      case None
      with Inr a Cons.IH show ?thesis by (simp add: ipv4_addrs_Cons)
    next
      case (Some links)
      show ?thesis
      proof (cases "scan_links links")
        case None
        with Inr a Some Cons.IH show ?thesis
          by (simp add: ipv4_addrs_Cons first_usable_def find_append_cases scan_links_find)
      next
        case (Some ip)
        with Inr a \<open>m AF_INET = Some links\<close> show ?thesis
          by (simp add: ipv4_addrs_Cons first_usable_def find_append_cases scan_links_find)
      qed
    qed
  qed
qed

lemma first_usable_cases: "first_usable ips = ''?.?.?.?'' \<or> (usable (first_usable ips) \<and> first_usable ips \<in> set ips)"
  by (auto simp: first_usable_def find_Some_iff split: option.splits)

section \<open>The address resolvers\<close>

text \<open>
  Claim C4, as amended. The resolver of the Textual front end returns the first
  enumerated IPv4 address that is non-empty and does not start with \<open>127.\<close>, among the
  interfaces enumerated before any failure; when there is none, or the enumeration
  raises first, it returns the sentinel \<open>?.?.?.?\<close>. The resolver of the CLI and Rich
  front ends returns the local address of its UDP probe and, when the probe raises,
  the address \<open>127.0.0.1\<close>. Both are total: no exception leaves them. The text of an
  IPv4 address \<open>a.b.c.d\<close> passes the test of the first resolver exactly when it lies
  outside 127.0.0.0/8.
\<close>

theorem resolvers_degrade_without_raising:
  "(interfaces h = Inl e \<longrightarrow> get_local_ip h = ''?.?.?.?'') \<and>
   (interfaces h = Inr ifs \<longrightarrow>
      get_local_ip h = first_usable (ipv4_addrs h (takeWhile (answers h) ifs)) \<and>
      (get_local_ip h = ''?.?.?.?'' \<or>
       get_local_ip h \<in> set (ipv4_addrs h ifs) \<and> get_local_ip h \<noteq> [] \<and>
       \<not> startswith (get_local_ip h) ''127.'')) \<and>
   (usable (dotted a b c d) \<longleftrightarrow> a \<noteq> 127) \<and>
   (udp_probe h = Inr ip \<longrightarrow> get_local_ip_sock h = ip) \<and>
   (udp_probe h = Inl e' \<longrightarrow> get_local_ip_sock h = ''127.0.0.1'')"
proof (intro conjI impI)
  show "usable (dotted a b c d) \<longleftrightarrow> a \<noteq> 127"
    using str_nat_nonempty [of a] by (simp add: usable_def loopback_octet) (simp add: dotted_def)
next
  assume "interfaces h = Inl e"
  then show "get_local_ip h = ''?.?.?.?''" by (simp add: get_local_ip_def)
next
  assume i: "interfaces h = Inr ifs"
  have g: "get_local_ip h =
      (case scan_ifaces h ifs of Inl e \<Rightarrow> ''?.?.?.?'' | Inr None \<Rightarrow> ''?.?.?.?'' | Inr (Some ip) \<Rightarrow> ip)"
    using i by (simp add: get_local_ip_def split: sum.splits option.splits)
  show f: "get_local_ip h = first_usable (ipv4_addrs h (takeWhile (answers h) ifs))"
    unfolding g by (rule scan_ifaces_first_usable)
  have sub: "set (ipv4_addrs h (takeWhile (answers h) ifs)) \<subseteq> set (ipv4_addrs h ifs)"
    by (auto simp: ipv4_addrs_def dest: set_takeWhileD)
  show "get_local_ip h = ''?.?.?.?'' \<or>
       get_local_ip h \<in> set (ipv4_addrs h ifs) \<and> get_local_ip h \<noteq> [] \<and>
       \<not> startswith (get_local_ip h) ''127.''"
    unfolding f using first_usable_cases [of "ipv4_addrs h (takeWhile (answers h) ifs)"] sub
    by (auto simp: usable_def)
next
  assume "udp_probe h = Inr ip"
  then show "get_local_ip_sock h = ip" by (simp add: get_local_ip_sock_def)
next
  assume "udp_probe h = Inl e'"
  then show "get_local_ip_sock h = ''127.0.0.1''" by (simp add: get_local_ip_sock_def)
qed

theorem resolvers_degrade_without_raising_witness:
  "interfaces host_up = Inr [''lo'', ''eth0''] \<and> udp_probe host_up = Inr ''192.168.1.20'' \<and>
   udp_probe host_down = Inl OSError \<and>
   get_local_ip host_up = ''192.168.1.20'' \<and>
   get_local_ip host_down = ''?.?.?.?'' \<and>
   get_local_ip_sock host_up = ''192.168.1.20'' \<and>
   get_local_ip_sock host_down = ''127.0.0.1''"
proof -
  have i: "interfaces host_up = Inr [''lo'', ''eth0'']" by (simp add: host_up_def)
  have i': "interfaces host_down = Inr [''lo'']" by (simp add: host_down_def)
  have u: "udp_probe host_up = Inr ''192.168.1.20''" by (simp add: host_up_def)
  have u': "udp_probe host_down = Inl OSError" by (simp add: host_down_def)
  have 1: "first_usable (ipv4_addrs host_up (takeWhile (answers host_up) [''lo'', ''eth0''])) = ''192.168.1.20''"
    by (simp add: first_usable_def ipv4_addrs_def answers_def host_up_def AF_INET_def
        List.map_filter_simps usable_def startswith_def)
  have 2: "first_usable (ipv4_addrs host_down (takeWhile (answers host_down) [''lo''])) = ''?.?.?.?''"
    by (simp add: first_usable_def ipv4_addrs_def answers_def host_down_def AF_INET_def
        List.map_filter_simps usable_def startswith_def)
  note t = resolvers_degrade_without_raising
    [where h = host_up and ifs = "[''lo'', ''eth0'']" and ip = "''192.168.1.20''"]
  note t' = resolvers_degrade_without_raising
    [where h = host_down and ifs = "[''lo'']" and e' = OSError]
  from t i u have 3: "get_local_ip host_up = first_usable (ipv4_addrs host_up (takeWhile (answers host_up) [''lo'', ''eth0'']))"
    and 4: "get_local_ip_sock host_up = ''192.168.1.20''" by blast+
  from t' i' u' have 5: "get_local_ip host_down = first_usable (ipv4_addrs host_down (takeWhile (answers host_down) [''lo'']))"
    and 6: "get_local_ip_sock host_down = ''127.0.0.1''" by blast+
  from i u u' 3 [unfolded 1] 5 [unfolded 2] 4 6 show ?thesis by blast
qed

text \<open>
  Claim C4 as the specification words it fails for the resolver of the CLI and Rich
  front ends: on a host where the probe raises it returns the loopback address
  \<open>127.0.0.1\<close>, not a value marked as unknown.
\<close>

theorem resolver_fallback_counterexample:
  "udp_probe host_down = Inl OSError \<and>
   get_local_ip_sock host_down = ''127.0.0.1'' \<and>
   get_local_ip_sock host_down \<noteq> ''?.?.?.?'' \<and>
   startswith (get_local_ip_sock host_down) ''127.''"
  by (simp add: get_local_ip_sock_def host_down_def startswith_def)

end
